(* ===== verification/Prelude.thy ===== *)
theory Prelude
  imports Main
begin

text \<open>
  Shared vocabulary of the development: the JavaScript errors that the two components
  can raise, the type of an event handler (a state transformer that may throw), the
  character and string constants that the JSX sources are written with, and the
  generic lemmas on lists and sums that the component theories share.
\<close>

section \<open>Errors and handlers\<close>

text \<open>
  The TypeErrors a JavaScript engine raises in this code: reading a property of
  \<open>undefined\<close> (\<open>appointments.map\<close> when \<open>appointments\<close> was not passed) and calling a
  value that is not a function (\<open>onAppointmentClick(...)\<close> when the callback was not
  passed). The argument is the property or variable name.
\<close>

datatype js_error =
    CannotReadPropertyOfUndefined string
  | NotAFunction string

text \<open>
  An event handler or callback acts on the state of the world it can see (for the
  callback of \<open>AppointmentList\<close>, whatever the parent records) and may throw.
\<close>

type_synonym 's handler = "'s \<Rightarrow> js_error + 's"

named_theorems render_simps "equations that compute rendered trees"

section \<open>Characters of JSX source text\<close>

abbreviation space :: char where "space \<equiv> CHR '' ''"
abbreviation tab :: char where "tab \<equiv> CHR 0x09"
abbreviation newline :: char where "newline \<equiv> CHR 0x0A"

text \<open>A line break followed by \<open>n\<close> spaces of indentation, as between two JSX tags.\<close>

definition nl_indent :: "nat \<Rightarrow> string" where
  "nl_indent n = newline # replicate n space"

section \<open>Generic lemmas\<close>

lemma set_replicate_sub: "set (replicate n c) \<subseteq> {c}"
  by (induction n) auto

lemma dropWhile_replicate_append:
  "dropWhile (\<lambda>x. x = c) (replicate n c @ xs) = dropWhile (\<lambda>x. x = c) xs"
  by (induction n) auto

lemma dropWhile_all_Nil: "\<forall>x \<in> set xs. P x \<Longrightarrow> dropWhile P xs = []"
  by (induction xs) auto

lemma concat_map_Nil_iff: "(concat (map f xs) = []) \<longleftrightarrow> (\<forall>x \<in> set xs. f x = [])"
  by (induction xs) auto

lemma concat_map_singleton: "concat (map (\<lambda>x. [f x]) xs) = map f xs"
  by (induction xs) auto

end
