(* ===== verification/JSX.thy ===== *)
theory JSX
  imports Prelude
begin

text \<open>
  The JSX that the two components are written in, with the two pieces of the toolchain
  that give it its meaning (neither is part of this repository, both are modelled from
  their documented behaviour):
  \<^item> the JSX compiler's treatment of literal text between tags
    (\<open>cleanJSXElementLiteralChild\<close>): lines are split, every line but the first loses
    its leading blanks, every line but the last its trailing blanks, empty lines vanish
    and the surviving lines are joined by one space;
  \<^item> React's rendering of an element tree into host nodes: a string child becomes one
    text node (the empty string none), an array child is spliced into the children, an
    element becomes one host element, a component element becomes what the component
    renders, and an error thrown while rendering aborts the whole render.
\<close>

section \<open>Literal JSX text\<close>

fun split_nl :: "string \<Rightarrow> string list" where
  "split_nl [] = [[]]"
| "split_nl (c # cs) =
     (if c = newline then [] # split_nl cs
      else (case split_nl cs of l # ls \<Rightarrow> (c # l) # ls | [] \<Rightarrow> [[c]]))"

definition tabs_to_spaces :: "string \<Rightarrow> string" where
  "tabs_to_spaces l = map (\<lambda>c. if c = tab then space else c) l"

definition trim_start :: "string \<Rightarrow> string" where
  "trim_start l = dropWhile (\<lambda>c. c = space) l"

definition trim_end :: "string \<Rightarrow> string" where
  "trim_end l = rev (dropWhile (\<lambda>c. c = space) (rev l))"

text \<open>A line counts as non-empty when it holds a character other than space and tab.\<close>

definition non_blank :: "string \<Rightarrow> bool" where
  "non_blank l \<longleftrightarrow> (\<exists>c \<in> set l. c \<noteq> space \<and> c \<noteq> tab)"

definition last_non_blank :: "string list \<Rightarrow> nat" where
  "last_non_blank ls =
     (let is = filter (\<lambda>i. non_blank (ls ! i)) [0..<length ls] in
      if is = [] then 0 else last is)"

definition clean_line :: "nat \<Rightarrow> nat \<Rightarrow> nat \<times> string \<Rightarrow> string" where
  "clean_line n lne il =
     (let (i, l) = il;
          l0 = tabs_to_spaces l;
          l1 = (if i = 0 then l0 else trim_start l0);
          l2 = (if i = n - 1 then l1 else trim_end l1)
      in if l2 = [] then [] else if i = lne then l2 else l2 @ [space])"

definition jsx_clean :: "string \<Rightarrow> string" where
  "jsx_clean v =
     (let ls = split_nl v
      in concat (map (clean_line (length ls) (last_non_blank ls)) (enumerate 0 ls)))"

section \<open>Elements and host nodes\<close>

text \<open>
  A host node of the rendered tree: a text node, or an element with its tag, its React
  key (already turned into a string, as \<open>createElement\<close> does) and its click listener.
\<close>

datatype 's vnode =
    VText string
  | VElem string "string option" "'s handler option" "'s vnode list"

text \<open>
  A JSX child: literal text between tags, the string value of an expression container,
  an array value of an expression container, an intrinsic element, or a component
  element, given by what rendering the component with its props yields.
\<close>

datatype 's jsx =
    JText string
  | JStr string
  | JArr "'s jsx list"
  | JEl string "string option" "'s handler option" "'s jsx list"
  | JComp "js_error + 's vnode list"

definition text_node :: "string \<Rightarrow> 's vnode list" where
  "text_node s = (if s = [] then [] else [VText s])"

fun host :: "'s jsx \<Rightarrow> js_error + 's vnode list"
  and host_list :: "'s jsx list \<Rightarrow> js_error + 's vnode list" where
  "host (JText t) = Inr (text_node (jsx_clean t))"
| "host (JStr s) = Inr (text_node s)"
| "host (JArr xs) = host_list xs"
| "host (JEl tag k h cs) =
     (case host_list cs of Inl e \<Rightarrow> Inl e | Inr ns \<Rightarrow> Inr [VElem tag k h ns])"
| "host (JComp r) = r"
| "host_list [] = Inr []"
| "host_list (x # xs) =
     (case host x of
        Inl e \<Rightarrow> Inl e
      | Inr ns \<Rightarrow> (case host_list xs of Inl e \<Rightarrow> Inl e | Inr ms \<Rightarrow> Inr (ns @ ms)))"

text \<open>\<open>textContent\<close> of a host node: its text, in document order.\<close>

fun text_content :: "'s vnode \<Rightarrow> string" where
  "text_content (VText s) = s"
| "text_content (VElem tag k h cs) = concat (map text_content cs)"


section \<open>Lemmas on literal text\<close>

text \<open>
  Three rules compute every literal of the sources: text on one line is kept as it is
  (tabs become spaces), blank text that spans a line break vanishes, and text after a
  line break and indentation loses the indentation.
\<close>

lemma split_nl_not_Nil: "split_nl v \<noteq> []"
  by (induction v) (auto split: list.split)

lemma split_nl_no_newline: "newline \<notin> set v \<Longrightarrow> split_nl v = [v]"
  by (induction v) auto

lemma split_nl_lines: "l \<in> set (split_nl v) \<Longrightarrow> set l \<subseteq> set v - {newline}"
proof (induction v arbitrary: l)
  case Nil
  then show ?case by simp
next
  case (Cons c cs)
  show ?case
  proof (cases "c = newline")
    case True
    with Cons show ?thesis by auto
  next
    case False
    then obtain l0 ls where sp: "split_nl cs = l0 # ls"
      using split_nl_not_Nil by (cases "split_nl cs") auto
    from False Cons.prems sp have l: "l = c # l0 \<or> l \<in> set ls" by auto
    have "set l0 \<subseteq> set cs - {newline}" and "\<forall>m \<in> set ls. set m \<subseteq> set cs - {newline}"
      using Cons.IH sp by auto
    with l False show ?thesis by auto
  qed
qed

lemma split_nl_length: "newline \<in> set v \<Longrightarrow> 2 \<le> length (split_nl v)"
proof (induction v)
  case Nil
  then show ?case by simp
next
  case (Cons c cs)
  show ?case
  proof (cases "c = newline")
    case True
    then show ?thesis using split_nl_not_Nil [of cs] by (cases "split_nl cs") auto
  next
    case False
    with Cons show ?thesis by (auto split: list.split)
  qed
qed

lemma tabs_to_spaces_Nil [simp]: "tabs_to_spaces [] = []"
  by (simp add: tabs_to_spaces_def)

lemma tabs_to_spaces_blank:
  "set l \<subseteq> {space, tab} \<Longrightarrow> \<forall>c \<in> set (tabs_to_spaces l). c = space"
  by (auto simp: tabs_to_spaces_def)

lemma trim_blank:
  assumes "\<forall>c \<in> set l. c = space"
  shows "trim_start l = []" and "trim_end l = []"
  using assms by (simp_all add: trim_start_def trim_end_def dropWhile_all_Nil)

lemma clean_line_blank:
  assumes "set l \<subseteq> {space, tab}" and "i = 0 \<longrightarrow> i \<noteq> n - 1"
  shows "clean_line n lne (i, l) = []"
proof -
  have sp: "\<forall>c \<in> set (tabs_to_spaces l). c = space"
    using assms(1) by (rule tabs_to_spaces_blank)
  show ?thesis
  proof (cases "i = 0")
    case True
    with assms(2) have "i \<noteq> n - 1" by simp
    with True trim_blank(2) [OF sp] show ?thesis by (simp add: clean_line_def)
  next
    case False
    have "\<forall>c \<in> set (trim_start (tabs_to_spaces l)). c = space"
      using trim_blank(1) [OF sp] by simp
    then have "trim_end (trim_start (tabs_to_spaces l)) = []" by (rule trim_blank(2))
    with False trim_blank(1) [OF sp] show ?thesis by (simp add: clean_line_def)
  qed
qed

lemma jsx_clean_single_line: "newline \<notin> set v \<Longrightarrow> jsx_clean v = tabs_to_spaces v"
  by (simp add: jsx_clean_def split_nl_no_newline clean_line_def last_non_blank_def Let_def)

lemma jsx_clean_blank:
  assumes "set v \<subseteq> {space, tab, newline}" and "newline \<in> set v"
  shows "jsx_clean v = []"
proof -
  let ?ls = "split_nl v"
  have two: "2 \<le> length ?ls" using assms(2) by (rule split_nl_length)
  have "clean_line (length ?ls) (last_non_blank ?ls) il = []" if "il \<in> set (enumerate 0 ?ls)" for il
  proof -
    obtain i l where il: "il = (i, l)" by (cases il)
    with that have "l \<in> set ?ls" by (auto simp: in_set_enumerate_eq)
    then have "set l \<subseteq> {space, tab}" using assms(1) split_nl_lines by fastforce
    then show ?thesis using two il by (simp add: clean_line_blank)
  qed
  then show ?thesis by (simp add: jsx_clean_def concat_map_Nil_iff Let_def)
qed

lemma jsx_clean_indented:
  assumes "newline \<notin> set t"
  shows "jsx_clean (nl_indent n @ t) = trim_start (tabs_to_spaces t)"
proof -
  have sp: "split_nl (nl_indent n @ t) = [[], replicate n space @ t]"
    using assms set_replicate_sub [of n space] by (auto simp: nl_indent_def split_nl_no_newline)
  have ts: "trim_start (tabs_to_spaces (replicate n space @ t)) = trim_start (tabs_to_spaces t)"
    by (simp add: tabs_to_spaces_def trim_start_def dropWhile_replicate_append)
  show ?thesis
  proof (cases "non_blank (replicate n space @ t)")
    case True
    then have "last_non_blank [[], replicate n space @ t] = 1"
      by (simp add: last_non_blank_def non_blank_def)
    then show ?thesis using ts
      by (simp add: jsx_clean_def sp clean_line_def Let_def trim_end_def)
  next
    case False
    then have "set t \<subseteq> {space, tab}" by (auto simp: non_blank_def)
    then have "\<forall>c \<in> set (tabs_to_spaces t). c = space" by (rule tabs_to_spaces_blank)
    then have "trim_start (tabs_to_spaces t) = []" by (rule trim_blank)
    then show ?thesis using ts
      by (simp add: jsx_clean_def sp clean_line_def Let_def trim_end_def)
  qed
qed


lemma jsx_clean_nl_indent [simp, render_simps]: "jsx_clean (nl_indent n) = []"
  by (rule jsx_clean_blank) (auto simp: nl_indent_def dest: subsetD [OF set_replicate_sub])

lemma jsx_clean_space_nl_indent [simp, render_simps]: "jsx_clean (space # nl_indent n) = []"
  by (rule jsx_clean_blank) (auto simp: nl_indent_def dest: subsetD [OF set_replicate_sub])

section \<open>Lemmas on rendering\<close>

lemma host_list_append:
  "host_list (xs @ ys) =
     (case host_list xs of
        Inl e \<Rightarrow> Inl e
      | Inr ns \<Rightarrow> (case host_list ys of Inl e \<Rightarrow> Inl e | Inr ms \<Rightarrow> Inr (ns @ ms)))"
  by (induction xs) (auto split: sum.split)

lemma host_list_map:
  "(\<And>x. x \<in> set xs \<Longrightarrow> host (f x) = Inr (g x)) \<Longrightarrow>
   host_list (map f xs) = Inr (concat (map g xs))"
  by (induction xs) auto

lemma text_node_simps [simp, render_simps]:
  "text_node [] = []" "text_node (c # cs) = [VText (c # cs)]"
  by (simp_all add: text_node_def)

lemma text_content_text_node [simp]: "concat (map text_content (text_node s)) = s"
  by (simp add: text_node_def)

section \<open>Lemmas on the characters of cleaned text\<close>

lemma set_trim_start: "set (trim_start l) \<subseteq> set l"
  by (auto simp: trim_start_def dest: set_dropWhileD)

lemma set_trim_end: "set (trim_end l) \<subseteq> set l"
  by (auto simp: trim_end_def dest: set_dropWhileD)

lemma in_set_dropWhile_other: "c \<in> set xs \<Longrightarrow> c \<noteq> x \<Longrightarrow> c \<in> set (dropWhile (\<lambda>y. y = x) xs)"
  by (induction xs) auto

lemma tab_not_in_tabs_to_spaces: "tab \<notin> set (tabs_to_spaces l)"
  by (auto simp: tabs_to_spaces_def)

lemma tabs_to_spaces_id: "tab \<notin> set l \<Longrightarrow> tabs_to_spaces l = l"
  by (induction l) (auto simp: tabs_to_spaces_def)

lemma in_set_enumerate_line:
  assumes "l \<in> set ls" shows "\<exists>i. (i, l) \<in> set (enumerate 0 ls)"
proof -
  from assms obtain i where "i < length ls" and "ls ! i = l" by (auto simp: in_set_conv_nth)
  then show ?thesis by (auto simp: in_set_enumerate_eq)
qed

lemma set_clean_line: "set (clean_line n lne (i, l)) \<subseteq> set (tabs_to_spaces l) \<union> {space}"
proof -
  define l1 where "l1 = (if i = 0 then tabs_to_spaces l else trim_start (tabs_to_spaces l))"
  define l2 where "l2 = (if i = n - 1 then l1 else trim_end l1)"
  have "set l1 \<subseteq> set (tabs_to_spaces l)"
    using set_trim_start [of "tabs_to_spaces l"] by (simp add: l1_def)
  moreover have "set l2 \<subseteq> set l1"
    using set_trim_end [of l1] by (simp add: l2_def)
  moreover have "clean_line n lne (i, l) = (if l2 = [] then [] else if i = lne then l2 else l2 @ [space])"
    by (simp add: clean_line_def Let_def l1_def l2_def)
  ultimately show ?thesis by auto
qed

lemma clean_line_keeps:
  assumes "c \<in> set l" and "c \<noteq> space" and "c \<noteq> tab"
  shows "c \<in> set (clean_line n lne (i, l))"
proof -
  define l1 where "l1 = (if i = 0 then tabs_to_spaces l else trim_start (tabs_to_spaces l))"
  define l2 where "l2 = (if i = n - 1 then l1 else trim_end l1)"
  have "c \<in> set (tabs_to_spaces l)" using assms by (force simp: tabs_to_spaces_def)
  then have "c \<in> set l1"
    using assms(2) by (simp add: l1_def trim_start_def in_set_dropWhile_other)
  then have "c \<in> set l2"
    using assms(2) by (simp add: l2_def trim_end_def in_set_dropWhile_other)
  moreover have "clean_line n lne (i, l) = (if l2 = [] then [] else if i = lne then l2 else l2 @ [space])"
    by (simp add: clean_line_def Let_def l1_def l2_def)
  ultimately show ?thesis by auto
qed

lemma jsx_clean_chars: "c \<in> set (jsx_clean v) \<Longrightarrow> c \<noteq> newline \<and> c \<noteq> tab"
proof -
  assume "c \<in> set (jsx_clean v)"
  then obtain i l where il: "(i, l) \<in> set (enumerate 0 (split_nl v))"
    and c: "c \<in> set (clean_line (length (split_nl v)) (last_non_blank (split_nl v)) (i, l))"
    by (auto simp: jsx_clean_def Let_def)
  from il have "l \<in> set (split_nl v)" by (auto simp: in_set_enumerate_eq)
  then have "newline \<notin> set l" using split_nl_lines by blast
  then have "newline \<notin> set (tabs_to_spaces l)" by (auto simp: tabs_to_spaces_def)
  with c set_clean_line tab_not_in_tabs_to_spaces show ?thesis by blast
qed

lemma line_of_char:
  "c \<in> set v \<Longrightarrow> c \<noteq> newline \<Longrightarrow> \<exists>l \<in> set (split_nl v). c \<in> set l"
proof (induction v)
  case Nil
  then show ?case by simp
next
  case (Cons x xs)
  show ?case
  proof (cases "x = newline")
    case True
    with Cons show ?thesis by auto
  next
    case False
    then obtain l0 ls where sp: "split_nl xs = l0 # ls"
      using split_nl_not_Nil by (cases "split_nl xs") auto
    with False Cons show ?thesis by auto
  qed
qed

lemma jsx_clean_keeps:
  assumes "c \<in> set v" and "c \<noteq> space" and "c \<noteq> tab" and "c \<noteq> newline"
  shows "c \<in> set (jsx_clean v)"
proof -
  obtain l where l: "l \<in> set (split_nl v)" and cl: "c \<in> set l"
    using line_of_char assms(1,4) by blast
  obtain i where "(i, l) \<in> set (enumerate 0 (split_nl v))"
    using in_set_enumerate_line [OF l] by blast
  moreover have "c \<in> set (clean_line (length (split_nl v)) (last_non_blank (split_nl v)) (i, l))"
    using cl assms(2,3) by (rule clean_line_keeps)
  ultimately show ?thesis by (auto simp: jsx_clean_def Let_def)
qed

section \<open>Properties of text cleaning\<close>

text \<open>
  Cleaning is idempotent: cleaned text has no line break and no tab, so the compiler
  leaves it as it is.
\<close>

theorem jsx_clean_idem: "jsx_clean (jsx_clean v) = jsx_clean v"
proof -
  have "newline \<notin> set (jsx_clean v)" and "tab \<notin> set (jsx_clean v)"
    using jsx_clean_chars by blast+
  then show ?thesis by (simp add: jsx_clean_single_line tabs_to_spaces_id)
qed

text \<open>
  Literal text between JSX tags produces no text node exactly when it is empty, or it
  is made of spaces, tabs and line breaks and spans a line break.
\<close>

theorem jsx_text_vanishes_iff:
  "jsx_clean v = [] \<longleftrightarrow> v = [] \<or> (set v \<subseteq> {space, tab, newline} \<and> newline \<in> set v)"
proof
  assume e: "jsx_clean v = []"
  show "v = [] \<or> (set v \<subseteq> {space, tab, newline} \<and> newline \<in> set v)"
  proof (rule ccontr)
    assume n: "\<not> (v = [] \<or> (set v \<subseteq> {space, tab, newline} \<and> newline \<in> set v))"
    show False
    proof (cases "set v \<subseteq> {space, tab, newline}")
      case True
      with n have "newline \<notin> set v" and "v \<noteq> []" by auto
      then show False using e by (simp add: jsx_clean_single_line tabs_to_spaces_def)
    next
      case False
      then obtain c where "c \<in> set v" and "c \<noteq> space" "c \<noteq> tab" "c \<noteq> newline" by auto
      then have "c \<in> set (jsx_clean v)" by (rule jsx_clean_keeps)
      with e show False by simp
    qed
  qed
next
  assume "v = [] \<or> (set v \<subseteq> {space, tab, newline} \<and> newline \<in> set v)"
  then show "jsx_clean v = []"
  proof
    assume "v = []"
    then show ?thesis by (simp add: jsx_clean_single_line)
  next
    assume "set v \<subseteq> {space, tab, newline} \<and> newline \<in> set v"
    then show ?thesis by (simp add: jsx_clean_blank)
  qed
qed

end
