(* ===== verification/Events.thy ===== *)
theory Events
  imports JSX
begin

text \<open>
  React's click dispatch over a rendered host tree. A click hits a target node, named by
  its path of child indices from the top of the tree; React collects the \<open>onClick\<close>
  listeners on the way from the target up to the root (bubbling order, target first)
  and runs them one after the other. A listener that throws does not stop the others:
  React catches the first error, runs the remaining listeners and rethrows it after the
  last one. No handler of this code calls \<open>stopPropagation\<close>, which is not modelled.
\<close>

section \<open>Click targets and dispatch\<close>

text \<open>The nodes from the top of the tree down to the target, or \<open>None\<close> for a bad path.\<close>

fun path_nodes :: "'s vnode list \<Rightarrow> nat list \<Rightarrow> 's vnode list option" where
  "path_nodes ns [] = None"
| "path_nodes ns [i] = (if i < length ns then Some [ns ! i] else None)"
| "path_nodes ns (i # j # p) =
     (if i < length ns then
        (case ns ! i of
           VText s \<Rightarrow> None
         | VElem tag k h cs \<Rightarrow> map_option (Cons (ns ! i)) (path_nodes cs (j # p)))
      else None)"

fun listener_of :: "'s vnode \<Rightarrow> 's handler option" where
  "listener_of (VText s) = None"
| "listener_of (VElem tag k h cs) = h"

definition listeners :: "'s vnode list \<Rightarrow> nat list \<Rightarrow> 's handler list option" where
  "listeners ns p = map_option (\<lambda>nodes. rev (List.map_filter listener_of nodes)) (path_nodes ns p)"

fun run_listeners :: "'s handler list \<Rightarrow> 's \<Rightarrow> js_error option \<Rightarrow> 's \<times> js_error option" where
  "run_listeners [] s err = (s, err)"
| "run_listeners (h # hs) s err =
     (case h s of
        Inl e \<Rightarrow> run_listeners hs s (case err of None \<Rightarrow> Some e | Some e0 \<Rightarrow> Some e0)
      | Inr s' \<Rightarrow> run_listeners hs s' err)"

text \<open>
  The outcome of a click: \<open>None\<close> when the path names no node, otherwise the state after
  the listeners ran and the error React rethrows, if one was thrown.
\<close>

definition dispatch_click :: "'s vnode list \<Rightarrow> nat list \<Rightarrow> 's \<Rightarrow> ('s \<times> js_error option) option" where
  "dispatch_click ns p s = map_option (\<lambda>hs. run_listeners hs s None) (listeners ns p)"

text \<open>A subtree without any click listener.\<close>

fun quiet :: "'s vnode \<Rightarrow> bool" where
  "quiet (VText s) = True"
| "quiet (VElem tag k h cs) = (Option.is_none h \<and> (\<forall>c \<in> set cs. quiet c))"

text \<open>What a single listener does, as the dispatcher reports it.\<close>

definition outcome :: "js_error + 's \<Rightarrow> 's \<Rightarrow> 's \<times> js_error option" where
  "outcome r s = (case r of Inl e \<Rightarrow> (s, Some e) | Inr s' \<Rightarrow> (s', None))"

section \<open>Lemmas\<close>

lemma path_nodes_Cons_Cons [simp]:
  "path_nodes (VElem tag k h cs # ns) (0 # j # p) = map_option (Cons (VElem tag k h cs)) (path_nodes cs (j # p))"
  by simp

lemma path_nodes_Suc [simp]:
  "path_nodes (n # ns) (Suc i # p) = path_nodes ns (i # p)"
  by (cases p) (simp_all only: path_nodes.simps nth_Cons_Suc length_Cons Suc_less_eq)

lemma path_nodes_nonempty: "path_nodes ns p = Some nodes \<Longrightarrow> nodes \<noteq> []"
  by (induction ns p arbitrary: nodes rule: path_nodes.induct) (auto split: if_splits vnode.splits)

text \<open>
  A node without listeners contributes nothing: when the only listener on the way is the
  one at the top, the click runs exactly that listener, whatever the target below.
\<close>

lemma map_filter_listener_none:
  "\<forall>n \<in> set nodes. listener_of n = None \<Longrightarrow> List.map_filter listener_of nodes = []"
  by (induction nodes) (auto simp: List.map_filter_def)

lemma path_nodes_index:
  "path_nodes ns (i # q) = (if i < length ns then path_nodes [ns ! i] (0 # q) else None)"
  by (cases q) (auto split: vnode.split)

lemma path_nodes_first:
  "path_nodes (n # m # ns) (0 # q) = path_nodes [n] (0 # q)"
  by (cases q) (auto split: vnode.split)

lemma path_nodes_bound: "path_nodes ns (i # q) = Some nodes \<Longrightarrow> i < length ns"
  by (cases q) (auto split: if_splits)

lemma quiet_listener_none: "quiet n \<Longrightarrow> listener_of n = None"
  by (cases n) (simp_all add: Option.is_none_def)

lemma quiet_text_node [simp]: "c \<in> set (text_node s) \<Longrightarrow> quiet c"
  by (simp add: text_node_def split: if_splits)

lemma path_nodes_quiet:
  "path_nodes ns p = Some nodes \<Longrightarrow> \<forall>n \<in> set ns. quiet n \<Longrightarrow>
   \<forall>n \<in> set nodes. listener_of n = None"
proof (induction ns p arbitrary: nodes rule: path_nodes.induct)
  case (3 ns i j p)
  from "3.prems"(1) have i: "i < length ns" by (simp split: if_splits)
  then have q: "quiet (ns ! i)" using "3.prems"(2) by simp
  show ?case
  proof (cases "ns ! i")
    case (VText s)
    with "3.prems"(1) i show ?thesis by simp
  next
    case (VElem tag k h cs)
    with "3.prems"(1) i obtain rest where rest: "path_nodes cs (j # p) = Some rest"
      and nodes: "nodes = ns ! i # rest" by auto
    from q VElem have "\<forall>c \<in> set cs. quiet c" and "h = None"
      by (simp_all add: Option.is_none_def)
    with "3.IH" [OF i VElem rest] VElem nodes show ?thesis by auto
  qed
qed (auto split: if_splits intro!: quiet_listener_none simp: nth_mem)

text \<open>
  Below an element whose children are quiet, the only listener met is the element's own.
\<close>

lemma listeners_below:
  assumes "path_nodes [VElem tag k h cs] (0 # q) = Some nodes" and "\<forall>c \<in> set cs. quiet c"
  shows "List.map_filter listener_of nodes = (case h of None \<Rightarrow> [] | Some g \<Rightarrow> [g])"
proof (cases q)
  case Nil
  with assms(1) show ?thesis by (auto split: option.split)
next
  case (Cons j q')
  with assms(1) obtain rest where rest: "path_nodes cs (j # q') = Some rest"
    and nodes: "nodes = VElem tag k h cs # rest" by auto
  from path_nodes_quiet [OF rest assms(2)] have "List.map_filter listener_of rest = []"
    by (rule map_filter_listener_none)
  with nodes show ?thesis by (simp add: split: option.split)
qed

lemma run_listeners_single: "run_listeners [h] s None = outcome (h s) s"
  by (simp add: outcome_def split: sum.split)

end
