(* ===== verification/Keys.thy ===== *)
theory Keys
  imports Prelude
begin

text \<open>
  React keys are strings: \<open>createElement\<close> turns \<open>key={appointment.id}\<close> into
  \<open>'' + appointment.id\<close>. For an integer that JavaScript holds exactly (a safe integer,
  magnitude below \<open>2^53\<close>) this is its decimal representation with a leading minus
  sign when negative. The theory models that conversion and a decimal parser, and
  proves the round trip, so that two distinct ids always give distinct keys.
\<close>

section \<open>Number to string\<close>

definition digit_char :: "nat \<Rightarrow> char" where
  "digit_char d = char_of (48 + d)"

fun dec_nat :: "nat \<Rightarrow> string" where
  "dec_nat n = (if n < 10 then [digit_char n] else dec_nat (n div 10) @ [digit_char (n mod 10)])"

declare dec_nat.simps [simp del]

definition js_int_to_string :: "int \<Rightarrow> string" where
  "js_int_to_string i =
     (if i < 0 then CHR ''-'' # dec_nat (nat (- i)) else dec_nat (nat i))"

section \<open>String to number\<close>

definition digit_val :: "char \<Rightarrow> nat option" where
  "digit_val c = (let k = of_char c in if 48 \<le> k \<and> k < 58 then Some (k - 48) else None)"

fun parse_digits :: "nat \<Rightarrow> string \<Rightarrow> nat option" where
  "parse_digits acc [] = Some acc"
| "parse_digits acc (c # cs) =
     (case digit_val c of None \<Rightarrow> None | Some d \<Rightarrow> parse_digits (10 * acc + d) cs)"

definition parse_dec_nat :: "string \<Rightarrow> nat option" where
  "parse_dec_nat s = (if s = [] then None else parse_digits 0 s)"

definition parse_js_int :: "string \<Rightarrow> int option" where
  "parse_js_int s =
     (case s of
        [] \<Rightarrow> None
      | c # r \<Rightarrow> if c = CHR ''-'' then map_option (\<lambda>n. - int n) (parse_dec_nat r)
                else map_option int (parse_dec_nat s))"

section \<open>Lemmas\<close>

lemma digit_val_digit_char [simp]: "d < 10 \<Longrightarrow> digit_val (digit_char d) = Some d"
  by (simp add: digit_val_def digit_char_def)

lemma digit_char_not_minus: "d < 10 \<Longrightarrow> digit_char d \<noteq> CHR ''-''"
proof
  assume "d < 10" and "digit_char d = CHR ''-''"
  then have "digit_val (CHR ''-'') = Some d" by (metis digit_val_digit_char)
  then show False by (simp add: digit_val_def)
qed

lemma dec_nat_not_Nil: "dec_nat n \<noteq> []"
  by (subst dec_nat.simps) simp

lemma hd_dec_nat: "\<exists>d < 10. \<exists>r. dec_nat n = digit_char d # r"
proof (induction n rule: dec_nat.induct)
  case (1 n)
  show ?case
  proof (cases "n < 10")
    case True
    then show ?thesis by (subst dec_nat.simps) auto
  next
    case False
    with "1.IH" obtain d r where "d < 10" and "dec_nat (n div 10) = digit_char d # r" by blast
    with False show ?thesis by (subst dec_nat.simps) auto
  qed
qed

lemma parse_digits_append:
  "parse_digits acc (xs @ ys) =
     (case parse_digits acc xs of None \<Rightarrow> None | Some a \<Rightarrow> parse_digits a ys)"
  by (induction xs arbitrary: acc) (auto split: option.split)

lemma parse_digits_dec_nat:
  "parse_digits acc (dec_nat n) = Some (acc * 10 ^ length (dec_nat n) + n)"
proof (induction n arbitrary: acc rule: dec_nat.induct)
  case (1 n)
  show ?case
  proof (cases "n < 10")
    case True
    then show ?thesis by (subst (1 2) dec_nat.simps) simp
  next
    case False
    let ?L = "length (dec_nat (n div 10))"
    have "parse_digits acc (dec_nat n) =
          parse_digits acc (dec_nat (n div 10) @ [digit_char (n mod 10)])"
      using False by (subst dec_nat.simps) simp
    also have "\<dots> = Some (10 * (acc * 10 ^ ?L + n div 10) + n mod 10)"
      using False "1.IH" by (simp add: parse_digits_append)
    also have "10 * (acc * 10 ^ ?L + n div 10) + n mod 10 = acc * 10 ^ Suc ?L + n"
      by (simp add: algebra_simps)
    also have "Suc ?L = length (dec_nat n)"
      using False by (subst (2) dec_nat.simps) simp
    finally show ?thesis .
  qed
qed

lemma parse_dec_nat_dec_nat [simp]: "parse_dec_nat (dec_nat n) = Some n"
  using parse_digits_dec_nat [of 0 n] by (simp add: parse_dec_nat_def dec_nat_not_Nil)

lemma parse_js_int_digits:
  "c \<noteq> CHR ''-'' \<Longrightarrow> parse_js_int (c # r) = map_option int (parse_dec_nat (c # r))"
  by (simp add: parse_js_int_def)

lemma parse_js_int_to_string [simp]: "parse_js_int (js_int_to_string i) = Some i"
proof (cases "i < 0")
  case True
  then show ?thesis by (simp add: js_int_to_string_def parse_js_int_def)
next
  case False
  obtain d r where d: "d < 10" and dn: "dec_nat (nat i) = digit_char d # r"
    using hd_dec_nat by blast
  have "digit_char d \<noteq> CHR ''-''" using d by (rule digit_char_not_minus)
  then have "parse_js_int (dec_nat (nat i)) = map_option int (parse_dec_nat (dec_nat (nat i)))"
    unfolding dn by (rule parse_js_int_digits)
  with False show ?thesis by (simp add: js_int_to_string_def)
qed

text \<open>Distinct ids give distinct keys.\<close>

lemma js_int_to_string_inj: "js_int_to_string i = js_int_to_string j \<longleftrightarrow> i = j"
  by (metis option.inject parse_js_int_to_string)

section \<open>Keys are not empty\<close>

lemma js_int_to_string_not_Nil: "js_int_to_string i \<noteq> []"
  by (simp add: js_int_to_string_def dec_nat_not_Nil)

end
