(* ===== verification/AppointmentList.thy ===== *)
theory AppointmentList
  imports Events Keys
begin

text \<open>
  The component \<open>AppointmentList\<close> of
  \<open>src/templates/frontend/src/components/AppointmentList.tsx\<close>: the \<open>Appointment\<close>
  record, the props, the JSX the component returns (with the whitespace of the source,
  which decides which text nodes exist), the click closure of each list item, and the
  rendered tree that the component promises (\<open>list_view\<close>). The lemmas show that the
  component renders that tree, what a click on an item does, and that keys and item
  contents identify the appointments.
\<close>

section \<open>Data\<close>

text \<open>
  \<open>interface Appointment\<close> (lines 3--11). The field \<open>id\<close> is named \<open>id'\<close> here, since
  \<open>id\<close> is the identity function of HOL. JavaScript numbers used as identifiers are
  modelled as integers, as the spec says.
\<close>

record appointment =
  id' :: int
  patient :: string
  doctor :: string
  start_time :: string
  end_time :: string
  status :: string
  reason :: string

text \<open>
  \<open>interface AppointmentListProps\<close> (lines 13--16). Both props are required by the
  type, but a caller may still omit them (\<open>Home\<close> does): \<open>None\<close> is \<open>undefined\<close>.
\<close>

record 's AppointmentListProps =
  appointments :: "appointment list option"
  onAppointmentClick :: "(int \<Rightarrow> 's handler) option"

section \<open>The component\<close>

text \<open>\<open>() => onAppointmentClick(appointment.id)\<close>, the listener of each item (line 24).\<close>

definition click_closure :: "(int \<Rightarrow> 's handler) option \<Rightarrow> int \<Rightarrow> 's handler" where
  "click_closure cb i =
     (\<lambda>s. case cb of None \<Rightarrow> Inl (NotAFunction ''onAppointmentClick'') | Some f \<Rightarrow> f i s)"

text \<open>
  \<open>key={appointment.id}\<close> (line 24): \<open>createElement\<close> stores the key as the string
  \<open>'' + appointment.id\<close>.
\<close>

definition item_key :: "appointment \<Rightarrow> string" where
  "item_key a = js_int_to_string (id' a)"

text \<open>\<open><strong>{appointment.patient}</strong> with Dr. {appointment.doctor}\<close> (line 25).\<close>

definition item_patient_line :: "appointment \<Rightarrow> 's jsx list" where
  "item_patient_line a = [JEl ''strong'' None None [JStr (patient a)], JText '' with Dr. '', JStr (doctor a)]"

text \<open>\<open>{appointment.start_time} - {appointment.end_time}\<close> (line 27).\<close>

definition item_time_line :: "appointment \<Rightarrow> 's jsx list" where
  "item_time_line a = [JStr (start_time a), JText '' - '', JStr (end_time a)]"

text \<open>
  \<open>Status: {appointment.status} | Reason: {appointment.reason}\<close> (line 29); its first
  text starts with the line break and indentation in front of it.
\<close>

definition item_status_line :: "appointment \<Rightarrow> 's jsx list" where
  "item_status_line a =
     [JText (nl_indent 24 @ ''Status: ''), JStr (status a), JText '' | Reason: '', JStr (reason a)]"

text \<open>
  The JSX of one item, the body of the arrow passed to \<open>map\<close> (lines 24--30): the three
  lines, separated by \<open><br />\<close> and by the whitespace of the source (the blank after
  \<open>{appointment.doctor}\<close> and after \<open>{appointment.end_time}\<close> included).
\<close>

definition item_jsx :: "(int \<Rightarrow> 's handler) option \<Rightarrow> appointment \<Rightarrow> 's jsx" where
  "item_jsx cb a =
     JEl ''li'' (Some (item_key a)) (Some (click_closure cb (id' a)))
       ([JText (nl_indent 24)] @ item_patient_line a @ [JText (space # nl_indent 24),
        JEl ''br'' None None [],
        JText (nl_indent 24)] @ item_time_line a @ [JText (space # nl_indent 24),
        JEl ''br'' None None []] @ item_status_line a @ [
        JText (nl_indent 20)])"

text \<open>The JSX the component returns once \<open>appointments\<close> is an array (lines 19--34).\<close>

definition AppointmentList_jsx :: "appointment list \<Rightarrow> (int \<Rightarrow> 's handler) option \<Rightarrow> 's jsx" where
  "AppointmentList_jsx as cb =
     JEl ''div'' None None
       [JText (nl_indent 12),
        JEl ''h2'' None None [JText ''Appointment List''],
        JText (nl_indent 12),
        JEl ''ul'' None None
          [JText (nl_indent 16), JArr (map (item_jsx cb) as), JText (nl_indent 12)],
        JText (nl_indent 8)]"

text \<open>
  The function component (lines 18--35): destructuring the props, then evaluating
  \<open>appointments.map(...)\<close>, which throws when \<open>appointments\<close> is undefined.
\<close>

definition AppointmentList :: "'s AppointmentListProps \<Rightarrow> js_error + 's jsx" where
  "AppointmentList props =
     (case appointments props of
        None \<Rightarrow> Inl (CannotReadPropertyOfUndefined ''map'')
      | Some as \<Rightarrow> Inr (AppointmentList_jsx as (onAppointmentClick props)))"

text \<open>Rendering the component: its JSX turned into host nodes.\<close>

definition render_AppointmentList :: "'s AppointmentListProps \<Rightarrow> js_error + 's vnode list" where
  "render_AppointmentList props =
     (case AppointmentList props of Inl e \<Rightarrow> Inl e | Inr j \<Rightarrow> host j)"

section \<open>The promised view\<close>

text \<open>
  What the component should put on the screen: a heading and one list item per
  appointment, in order, keyed by the id, with the click closure as listener, showing
  the patient in bold, the doctor, the time range and the status and reason. An empty
  field shows no text node at all (React renders no node for an empty string).
\<close>

definition item_view :: "(int \<Rightarrow> 's handler) option \<Rightarrow> appointment \<Rightarrow> 's vnode" where
  "item_view cb a =
     VElem ''li'' (Some (js_int_to_string (id' a))) (Some (click_closure cb (id' a)))
       ([VElem ''strong'' None None (text_node (patient a)), VText '' with Dr. '']
        @ text_node (doctor a) @ [VElem ''br'' None None []]
        @ text_node (start_time a) @ [VText '' - ''] @ text_node (end_time a)
        @ [VElem ''br'' None None [], VText ''Status: ''] @ text_node (status a)
        @ [VText '' | Reason: ''] @ text_node (reason a))"

definition list_view :: "(int \<Rightarrow> 's handler) option \<Rightarrow> appointment list \<Rightarrow> 's vnode list" where
  "list_view cb as =
     [VElem ''div'' None None
        [VElem ''h2'' None None [VText ''Appointment List''],
         VElem ''ul'' None None (map (item_view cb) as)]]"

text \<open>The key of a rendered node, as React reads it.\<close>

fun node_key :: "'s vnode \<Rightarrow> string option" where
  "node_key (VText s) = None"
| "node_key (VElem tag k h cs) = k"

section \<open>Shape of the rendered tree\<close>

text \<open>
  The shape every render of the list has: a \<open>div\<close> holding the heading and a \<open>ul\<close>
  whose children are items; an item is an \<open>li\<close> with a non-empty key and a click
  listener, and nothing below it listens to clicks.
\<close>

fun wf_item :: "'s vnode \<Rightarrow> bool" where
  "wf_item (VElem tag (Some k) (Some h) cs) = (tag = ''li'' \<and> k \<noteq> [] \<and> list_all quiet cs)"
| "wf_item n = False"

definition wf_list_tree :: "'s vnode list \<Rightarrow> bool" where
  "wf_list_tree t \<longleftrightarrow>
     (case t of
        [VElem d None None [VElem h None None [VText title], VElem u None None items]] \<Rightarrow>
          d = ''div'' \<and> h = ''h2'' \<and> title = ''Appointment List'' \<and> u = ''ul'' \<and> list_all wf_item items
      | _ \<Rightarrow> False)"

text \<open>The children of the \<open>ul\<close> of a rendered list, the items.\<close>

definition ul_items :: "'s vnode list \<Rightarrow> 's vnode list" where
  "ul_items t = (case t of [VElem d k h [t1, VElem u k' h' items]] \<Rightarrow> items | _ \<Rightarrow> [])"

section \<open>Reading an item back\<close>

text \<open>
  Whether an item can be read back from the screen: each displayed field occupies its
  own text node when it is not empty. \<open>parse_item\<close> reads the key and the twelve
  children of a rendered item.
\<close>

definition filled :: "appointment \<Rightarrow> bool" where
  "filled a \<longleftrightarrow> patient a \<noteq> [] \<and> doctor a \<noteq> [] \<and> start_time a \<noteq> [] \<and> end_time a \<noteq> []
     \<and> status a \<noteq> [] \<and> reason a \<noteq> []"

definition parse_item :: "'s vnode \<Rightarrow> appointment option" where
  "parse_item n =
     (case n of
        VText s \<Rightarrow> None
      | VElem tag k h cs \<Rightarrow>
          (case k of
             None \<Rightarrow> None
           | Some ks \<Rightarrow>
               if length cs = 12 then
                 map_option (\<lambda>i. \<lparr>id' = i, patient = text_content (cs ! 0),
                   doctor = text_content (cs ! 2), start_time = text_content (cs ! 4),
                   end_time = text_content (cs ! 6), status = text_content (cs ! 9),
                   reason = text_content (cs ! 11)\<rparr>) (parse_js_int ks)
               else None))"

section \<open>Fixtures\<close>

text \<open>
  A sample appointment (the one of the spec's example) and a parent callback that
  appends the id it is called with to a log, used to exercise the theorems below.
\<close>

definition sample_appointment :: appointment where
  "sample_appointment = \<lparr>id' = 1, patient = ''Alice'', doctor = ''Smith'', start_time = ''09:00'',
     end_time = ''09:30'', status = ''confirmed'', reason = ''checkup''\<rparr>"

definition log_id :: "int \<Rightarrow> int list handler" where
  "log_id i l = Inr (l @ [i])"

section \<open>Rendering lemmas\<close>

lemma host_item_jsx [render_simps]: "host (item_jsx cb a) = Inr [item_view cb a]"
  by (simp add: item_jsx_def item_patient_line_def item_time_line_def item_status_line_def
       item_key_def item_view_def jsx_clean_single_line jsx_clean_indented
       tabs_to_spaces_def trim_start_def text_node_def)

lemma host_AppointmentList_jsx [render_simps]:
  "host (AppointmentList_jsx as cb) = Inr (list_view cb as)"
proof -
  have "host_list (map (item_jsx cb) as) = Inr (map (item_view cb) as)"
    using host_list_map [of as "item_jsx cb" "\<lambda>a. [item_view cb a]"]
    by (simp add: host_item_jsx concat_map_singleton)
  then show ?thesis
    by (simp add: AppointmentList_jsx_def list_view_def jsx_clean_single_line tabs_to_spaces_def)
qed

lemma render_AppointmentList_Some [render_simps]:
  "render_AppointmentList \<lparr>appointments = Some as, onAppointmentClick = cb\<rparr> =
     host (AppointmentList_jsx as cb)"
  by (simp add: render_AppointmentList_def AppointmentList_def)

lemmas render_list_view = render_AppointmentList_Some host_AppointmentList_jsx

lemma text_content_item_view:
  "text_content (item_view cb a) =
     patient a @ '' with Dr. '' @ doctor a @ start_time a @ '' - '' @ end_time a @
     ''Status: '' @ status a @ '' | Reason: '' @ reason a"
  by (simp add: item_view_def text_node_def)

lemma item_view_quiet_children:
  "item_view cb a = VElem tag k h cs \<Longrightarrow> \<forall>c \<in> set cs. quiet c"
  by (auto simp: item_view_def Option.is_none_def)

text \<open>
  A click anywhere inside the \<open>i\<close>-th item runs exactly the listener of that item: the
  \<open>div\<close> and the \<open>ul\<close> above it have none, and nothing inside it has one.
\<close>

lemma listeners_list_view_item:
  assumes "path_nodes (list_view cb as) (0 # 1 # i # q) \<noteq> None"
  shows "i < length as \<and>
    listeners (list_view cb as) (0 # 1 # i # q) = Some [click_closure cb (id' (as ! i))]"
proof -
  let ?li = "item_view cb (as ! i)"
  from assms have i: "i < length as"
    by (simp add: list_view_def path_nodes_index [of "map (item_view cb) as"] split: if_splits)
  with assms obtain nodes where nodes: "path_nodes [?li] (0 # q) = Some nodes"
    and top: "path_nodes (list_view cb as) (0 # 1 # i # q) =
                Some (hd (list_view cb as) # VElem ''ul'' None None (map (item_view cb) as) # nodes)"
    by (auto simp: list_view_def path_nodes_index [of "map (item_view cb) as"])
  obtain cs where li: "?li = VElem ''li'' (Some (js_int_to_string (id' (as ! i))))
      (Some (click_closure cb (id' (as ! i)))) cs"
    by (simp add: item_view_def)
  have "List.map_filter listener_of nodes = [click_closure cb (id' (as ! i))]"
    using listeners_below [of _ _ _ cs q nodes] nodes li item_view_quiet_children [OF li]
    by simp
  with top i show ?thesis
    by (simp add: listeners_def list_view_def)
qed

lemma dispatch_list_view_item:
  assumes "path_nodes (list_view cb as) (0 # 1 # i # q) \<noteq> None"
  shows "i < length as \<and>
    dispatch_click (list_view cb as) (0 # 1 # i # q) s =
      Some (outcome (click_closure cb (id' (as ! i)) s) s)"
  using listeners_list_view_item [OF assms]
  by (simp add: dispatch_click_def outcome_def split: sum.split)

lemma listeners_list_view_outside:
  assumes "path_nodes (list_view cb as) p \<noteq> None" and "\<not> (\<exists>i q. p = 0 # 1 # i # q)"
  shows "listeners (list_view cb as) p = Some []"
proof -
  let ?h2 = "VElem ''h2'' None None [VText ''Appointment List''] :: 's vnode"
  let ?ul = "VElem ''ul'' None None (map (item_view cb) as)"
  define tree where "tree = list_view cb as"
  have tree: "tree = [VElem ''div'' None None [?h2, ?ul]]"
    by (simp add: tree_def list_view_def)
  obtain nodes where nodes: "path_nodes tree p = Some nodes"
    using assms(1) by (auto simp: tree_def)
  have "List.map_filter listener_of nodes = []"
  proof (cases p)
    case Nil
    with nodes show ?thesis by simp
  next
    case (Cons i p')
    with nodes tree have i: "i = 0" using path_nodes_bound [of tree i p' nodes] by simp
    show ?thesis
    proof (cases p')
      case Nil
      with nodes tree Cons i show ?thesis by auto
    next
      case (Cons j r)
      from nodes tree \<open>p = i # p'\<close> i Cons obtain rest where
        rest: "path_nodes [?h2, ?ul] (j # r) = Some rest"
        and nd: "nodes = VElem ''div'' None None [?h2, ?ul] # rest" by auto
      have "List.map_filter listener_of rest = []"
      proof (cases j)
        case 0
        then have "path_nodes [?h2] (j # r) = Some rest"
          using rest by (simp only: path_nodes_first)
        then show ?thesis
          by (rule map_filter_listener_none [OF path_nodes_quiet]) (simp add: Option.is_none_def)
      next
        case (Suc j')
        with rest have j': "j' = 0" using path_nodes_bound [of "[?h2, ?ul]" j r rest] by simp
        with assms(2) \<open>p = i # p'\<close> i Cons Suc have "r = []" by (cases r) auto
        with rest Suc j' show ?thesis by auto
      qed
      with nd show ?thesis by simp
    qed
  qed
  with nodes show ?thesis by (simp add: listeners_def tree_def)
qed

lemma dispatch_list_view_outside:
  assumes "path_nodes (list_view cb as) p \<noteq> None" and "\<not> (\<exists>i q. p = 0 # 1 # i # q)"
  shows "dispatch_click (list_view cb as) p s = Some (s, None)"
  using listeners_list_view_outside [OF assms] by (simp add: dispatch_click_def)

lemma wf_item_view: "wf_item (item_view cb a)"
  by (auto simp: item_view_def js_int_to_string_not_Nil list_all_iff Option.is_none_def)

lemma wf_list_view: "wf_list_tree (list_view cb as)"
  by (simp add: wf_list_tree_def list_view_def list_all_iff wf_item_view)

lemma render_AppointmentList_Inr:
  "render_AppointmentList props = Inr t \<Longrightarrow>
     \<exists>as. appointments props = Some as \<and> t = list_view (onAppointmentClick props) as"
  by (cases props) (auto simp: render_AppointmentList_def AppointmentList_def render_simps
      split: option.splits)

section \<open>Properties of the component\<close>

text \<open>
  C1. Refinement: for every list of appointments and every callback, the component
  renders exactly the promised view.
\<close>

theorem AppointmentList_renders_view:
  "render_AppointmentList \<lparr>appointments = Some as, onAppointmentClick = cb\<rparr> = Inr (list_view cb as)"
  by (simp only: render_simps)

text \<open>
  C2. A click on any node inside the \<open>i\<close>-th item calls \<open>onAppointmentClick\<close> exactly once,
  with the id of the \<open>i\<close>-th appointment, and nothing else.
\<close>

theorem click_item_calls_callback_once:
  assumes "render_AppointmentList \<lparr>appointments = Some as, onAppointmentClick = Some f\<rparr> = Inr tree"
    and "path_nodes tree (0 # 1 # i # q) \<noteq> None"
  shows "i < length as \<and> dispatch_click tree (0 # 1 # i # q) s = Some (outcome (f (id' (as ! i)) s) s)"
  using assms dispatch_list_view_item [of "Some f" as i q s]
  by (simp add: render_list_view click_closure_def)

theorem click_item_calls_callback_once_witness:
  "render_AppointmentList \<lparr>appointments = Some [sample_appointment], onAppointmentClick = Some log_id\<rparr>
     = Inr (list_view (Some log_id) [sample_appointment])
   \<and> path_nodes (list_view (Some log_id) [sample_appointment]) [0, 1, 0, 0] \<noteq> None
   \<and> dispatch_click (list_view (Some log_id) [sample_appointment]) [0, 1, 0, 0] [7] = Some ([7, 1], None)"
proof -
  have r: "render_AppointmentList \<lparr>appointments = Some [sample_appointment], onAppointmentClick = Some log_id\<rparr>
     = Inr (list_view (Some log_id) [sample_appointment])"
    by (simp only: render_list_view)
  have p: "path_nodes (list_view (Some log_id) [sample_appointment]) [0, 1, 0, 0] \<noteq> None"
    by (simp add: list_view_def item_view_def sample_appointment_def)
  from click_item_calls_callback_once [OF r p, of "[7]"] r p show ?thesis
    by (simp add: outcome_def log_id_def sample_appointment_def)
qed

text \<open>
  C3. The rendered list has the heading and one item per appointment, in the order
  given: the items carry the ids as keys and show the fields of their appointment.
\<close>

theorem render_items_in_order:
  "\<exists>items. render_AppointmentList \<lparr>appointments = Some as, onAppointmentClick = cb\<rparr> =
      Inr [VElem ''div'' None None [VElem ''h2'' None None [VText ''Appointment List''],
                                    VElem ''ul'' None None items]]
    \<and> length items = length as
    \<and> map node_key items = map (\<lambda>a. Some (js_int_to_string (id' a))) as
    \<and> map text_content items =
        map (\<lambda>a. patient a @ '' with Dr. '' @ doctor a @ start_time a @ '' - '' @ end_time a @
                  ''Status: '' @ status a @ '' | Reason: '' @ reason a) as"
  by (simp add: render_list_view list_view_def text_content_item_view) (simp add: item_view_def)

text \<open>
  C5. Rendering without the \<open>appointments\<close> prop throws the TypeError of reading
  \<open>map\<close> of \<open>undefined\<close>, whatever the callback.
\<close>

theorem render_without_appointments_fails:
  "render_AppointmentList \<lparr>appointments = None, onAppointmentClick = cb\<rparr> =
     Inl (CannotReadPropertyOfUndefined ''map'')"
  by (simp add: render_AppointmentList_def AppointmentList_def)

text \<open>
  C6. Without the \<open>onAppointmentClick\<close> prop the list renders, but a click on an item
  throws the TypeError of calling \<open>undefined\<close> and leaves the state as it was.
\<close>

theorem click_item_without_callback:
  assumes "render_AppointmentList \<lparr>appointments = Some as, onAppointmentClick = None\<rparr> = Inr tree"
    and "path_nodes tree (0 # 1 # i # q) \<noteq> None"
  shows "dispatch_click tree (0 # 1 # i # q) s = Some (s, Some (NotAFunction ''onAppointmentClick''))"
  using assms dispatch_list_view_item [of None as i q s]
  by (simp add: render_list_view click_closure_def outcome_def)

theorem click_item_without_callback_witness:
  "render_AppointmentList \<lparr>appointments = Some [sample_appointment],
      onAppointmentClick = (None :: (int \<Rightarrow> int list handler) option)\<rparr>
     = Inr (list_view None [sample_appointment])
   \<and> path_nodes (list_view (None :: (int \<Rightarrow> int list handler) option) [sample_appointment])
       [0, 1, 0] \<noteq> None
   \<and> dispatch_click (list_view (None :: (int \<Rightarrow> int list handler) option) [sample_appointment])
       [0, 1, 0] [] = Some ([], Some (NotAFunction ''onAppointmentClick''))"
proof -
  have r: "render_AppointmentList \<lparr>appointments = Some [sample_appointment],
      onAppointmentClick = (None :: (int \<Rightarrow> int list handler) option)\<rparr>
     = Inr (list_view None [sample_appointment])"
    by (simp only: render_list_view)
  have p: "path_nodes (list_view (None :: (int \<Rightarrow> int list handler) option) [sample_appointment]) [0, 1, 0] \<noteq> None"
    by (simp add: list_view_def)
  from r p click_item_without_callback [OF r p, of "[]"] show ?thesis by blast
qed

text \<open>
  C7. A click that does not land inside an item (the heading, its text, the list
  element itself, the enclosing \<open>div\<close>) runs no listener: the state is unchanged and
  nothing is thrown.
\<close>

theorem click_outside_items:
  assumes "render_AppointmentList \<lparr>appointments = Some as, onAppointmentClick = cb\<rparr> = Inr tree"
    and "path_nodes tree p \<noteq> None" and "\<not> (\<exists>i q. p = 0 # 1 # i # q)"
  shows "dispatch_click tree p s = Some (s, None)"
  using assms dispatch_list_view_outside [of cb as p s] by (simp add: render_list_view)

theorem click_outside_items_witness:
  "render_AppointmentList \<lparr>appointments = Some [sample_appointment], onAppointmentClick = Some log_id\<rparr>
     = Inr (list_view (Some log_id) [sample_appointment])
   \<and> path_nodes (list_view (Some log_id) [sample_appointment]) [0, 0, 0] \<noteq> None
   \<and> dispatch_click (list_view (Some log_id) [sample_appointment]) [0, 0, 0] [7] = Some ([7], None)"
proof -
  have r: "render_AppointmentList \<lparr>appointments = Some [sample_appointment], onAppointmentClick = Some log_id\<rparr>
     = Inr (list_view (Some log_id) [sample_appointment])"
    by (simp only: render_list_view)
  have p: "path_nodes (list_view (Some log_id) [sample_appointment]) [0, 0, 0] \<noteq> None"
    by (simp add: list_view_def)
  have "\<not> (\<exists>i q. [0, 0, 0::nat] = 0 # 1 # i # q)" by simp
  from r p click_outside_items [OF r p this, of "[7]"] show ?thesis by blast
qed

text \<open>
  C8. The keys of the rendered items are pairwise distinct exactly when the ids of
  the appointments are: the condition under which React's keyed reconciliation can
  tell the items apart.
\<close>

theorem keys_distinct_iff:
  assumes "render_AppointmentList \<lparr>appointments = Some as, onAppointmentClick = cb\<rparr> =
             Inr [VElem ''div'' None None [h, VElem ''ul'' None None items]]"
  shows "distinct (map node_key items) \<longleftrightarrow> distinct (map id' as)"
proof -
  from assms have items: "items = map (item_view cb) as"
    by (simp add: render_list_view list_view_def)
  have km: "map node_key items = map (Some \<circ> js_int_to_string) (map id' as)"
    by (simp add: items item_view_def)
  have "inj (Some \<circ> js_int_to_string)"
    by (simp add: inj_def js_int_to_string_inj)
  then have "distinct (map (Some \<circ> js_int_to_string) ys) \<longleftrightarrow> distinct ys" for ys
    by (metis distinct_map inj_on_subset subset_UNIV)
  then show ?thesis by (simp only: km)
qed

theorem keys_distinct_iff_witness:
  "render_AppointmentList \<lparr>appointments = Some [sample_appointment, sample_appointment\<lparr>id' := 2\<rparr>],
      onAppointmentClick = Some log_id\<rparr> =
     Inr [VElem ''div'' None None [VElem ''h2'' None None [VText ''Appointment List''],
       VElem ''ul'' None None (map (item_view (Some log_id)) [sample_appointment, sample_appointment\<lparr>id' := 2\<rparr>])]]
   \<and> distinct (map node_key (map (item_view (Some log_id)) [sample_appointment, sample_appointment\<lparr>id' := 2\<rparr>]))"
proof -
  have r: "render_AppointmentList \<lparr>appointments = Some [sample_appointment, sample_appointment\<lparr>id' := 2\<rparr>],
      onAppointmentClick = Some log_id\<rparr> =
     Inr [VElem ''div'' None None [VElem ''h2'' None None [VText ''Appointment List''],
       VElem ''ul'' None None (map (item_view (Some log_id)) [sample_appointment, sample_appointment\<lparr>id' := 2\<rparr>])]]"
    by (simp add: render_list_view list_view_def)
  have "distinct (map id' [sample_appointment, sample_appointment\<lparr>id' := 2\<rparr>])"
    by (simp add: sample_appointment_def)
  with r keys_distinct_iff [OF r] show ?thesis by blast
qed

text \<open>
  C9. Round trip: an item whose fields are all non-empty can be read back from the
  rendered item, key and text nodes, as the appointment it was rendered from.
\<close>

theorem parse_item_view:
  assumes "filled a"
    and "render_AppointmentList \<lparr>appointments = Some [a], onAppointmentClick = cb\<rparr> =
           Inr [VElem ''div'' None None [h, VElem ''ul'' None None [item]]]"
  shows "parse_item item = Some a"
proof -
  from assms(2) have "item = item_view cb a"
    by (simp add: render_list_view list_view_def)
  with assms(1) show ?thesis
    by (simp add: filled_def parse_item_def item_view_def text_node_def)
qed

theorem parse_item_view_witness:
  "filled sample_appointment
   \<and> render_AppointmentList \<lparr>appointments = Some [sample_appointment], onAppointmentClick = Some log_id\<rparr> =
       Inr [VElem ''div'' None None [VElem ''h2'' None None [VText ''Appointment List''],
         VElem ''ul'' None None [item_view (Some log_id) sample_appointment]]]
   \<and> parse_item (item_view (Some log_id) sample_appointment) = Some sample_appointment"
proof -
  have f: "filled sample_appointment" by (simp add: filled_def sample_appointment_def)
  have r: "render_AppointmentList \<lparr>appointments = Some [sample_appointment], onAppointmentClick = Some log_id\<rparr> =
       Inr [VElem ''div'' None None [VElem ''h2'' None None [VText ''Appointment List''],
         VElem ''ul'' None None [item_view (Some log_id) sample_appointment]]]"
    by (simp add: render_list_view list_view_def)
  from f r parse_item_view [OF f r] show ?thesis by blast
qed

text \<open>
  C12. Type of the rendered tree: whatever the props, a successful render is a
  \<open>div\<close> with the heading and a \<open>ul\<close> of items, each an \<open>li\<close> with a non-empty key
  and a click listener and no listener below it.
\<close>

theorem render_AppointmentList_well_formed:
  assumes "render_AppointmentList props = Inr t"
  shows "wf_list_tree t"
  using render_AppointmentList_Inr [OF assms] wf_list_view by auto

theorem render_AppointmentList_well_formed_witness:
  "render_AppointmentList \<lparr>appointments = Some [sample_appointment], onAppointmentClick = Some log_id\<rparr>
     = Inr (list_view (Some log_id) [sample_appointment])
   \<and> wf_list_tree (list_view (Some log_id) [sample_appointment])"
proof -
  have r: "render_AppointmentList \<lparr>appointments = Some [sample_appointment], onAppointmentClick = Some log_id\<rparr>
     = Inr (list_view (Some log_id) [sample_appointment])"
    by (simp only: render_simps)
  from r render_AppointmentList_well_formed [OF r] show ?thesis by blast
qed

end
