(* ===== verification/Home.thy ===== *)
theory Home
  imports AppointmentList
begin

text \<open>
  The page \<open>Home\<close> of \<open>src/templates/frontend/src/pages/Home.tsx\<close>: a heading, a
  paragraph and an embedded \<open>AppointmentList\<close>. The element \<open><AppointmentList />\<close>
  passes no props at all; \<open>Home_with\<close> is the page with the props of that element as
  a parameter, and \<open>Home\<close> is the page as written, with the empty props. The lemmas
  show that the page renders exactly when the embedded list does, and that as written
  it never renders.
\<close>

section \<open>The page\<close>

text \<open>\<open><h1>Welcome to the Healthcare System</h1>\<close> (line 7).\<close>

definition home_title :: "'s jsx" where
  "home_title = JEl ''h1'' None None [JText ''Welcome to the Healthcare System'']"

text \<open>\<open><p>Manage your appointments efficiently.</p>\<close> (line 8).\<close>

definition home_intro :: "'s jsx" where
  "home_intro = JEl ''p'' None None [JText ''Manage your appointments efficiently.'']"

text \<open>The page with the props of its \<open><AppointmentList />\<close> as a parameter (lines 4--12).\<close>

definition Home_with :: "'s AppointmentListProps \<Rightarrow> 's jsx" where
  "Home_with props =
     JEl ''div'' None None
       [JText (nl_indent 12),
        home_title,
        JText (nl_indent 12),
        home_intro,
        JText (nl_indent 12),
        JComp (render_AppointmentList props),
        JText (nl_indent 8)]"

text \<open>
  The props of \<open><AppointmentList />\<close> (line 9): the element has no attributes, so the
  component receives an empty props object and both props are undefined.
\<close>

definition Home_props :: "'s AppointmentListProps" where
  "Home_props = \<lparr>appointments = None, onAppointmentClick = None\<rparr>"

definition Home :: "'s jsx" where
  "Home = Home_with Home_props"

definition render_Home :: "js_error + 's vnode list" where
  "render_Home = host Home"

text \<open>The static part of the page: its heading and its paragraph.\<close>

definition home_header :: "'s vnode list" where
  "home_header =
     [VElem ''h1'' None None [VText ''Welcome to the Healthcare System''],
      VElem ''p'' None None [VText ''Manage your appointments efficiently.'']]"

section \<open>Rendering lemmas\<close>

lemma host_Home_with:
  "host (Home_with props) =
     (case render_AppointmentList props of
        Inl e \<Rightarrow> Inl e
      | Inr ns \<Rightarrow> Inr [VElem ''div'' None None (home_header @ ns)])"
  by (simp add: Home_with_def home_title_def home_intro_def home_header_def jsx_clean_single_line
      tabs_to_spaces_def split: sum.split)

section \<open>Properties of the page\<close>

text \<open>
  C4. As written, \<open>Home\<close> never renders: the embedded \<open>AppointmentList\<close> receives no
  \<open>appointments\<close> and throws the TypeError of reading \<open>map\<close> of \<open>undefined\<close>, which
  aborts the render of the whole page, heading included.
\<close>

theorem render_Home_fails: "render_Home = Inl (CannotReadPropertyOfUndefined ''map'')"
  by (simp add: render_Home_def Home_def Home_props_def host_Home_with render_AppointmentList_def
      AppointmentList_def)

end
