(* ===== verification/Typing.thy ===== *)
theory Typing
  imports AppointmentList
begin

text \<open>
  TypeScript's check of a JSX element against the props interface of its component,
  and what it buys at run time. An element \<open><AppointmentList a={...} b={...} />\<close>
  lists attributes; \<open>createElement\<close> collects them into the props object, a later
  attribute of the same name overriding an earlier one (\<open>element_props\<close>). The members
  of \<open>interface AppointmentListProps\<close> carry no \<open>?\<close>, so both are required
  (\<open>props_required\<close>), and the compiler accepts an element exactly when it gives every
  required member (\<open>ts_accepts\<close>; the attribute values are well typed by
  construction of \<open>jsx_attr\<close>, whose constructors carry the members' types). The
  theorem is the soundness of that check for this component: an accepted element
  renders, and each click on an item calls the given callback, in the manner of the
  progress theorem of a typed language.
\<close>

section \<open>Attributes and the props check\<close>

text \<open>An attribute of the element, with a value of the member's type (lines 14--15).\<close>

datatype 's jsx_attr =
    AttrAppointments "appointment list"
  | AttrOnAppointmentClick "int \<Rightarrow> 's handler"

text \<open>The member an attribute sets (lines 14--15).\<close>

fun attr_name :: "'s jsx_attr \<Rightarrow> string" where
  "attr_name (AttrAppointments as) = ''appointments''"
| "attr_name (AttrOnAppointmentClick f) = ''onAppointmentClick''"

text \<open>The members of the interface without \<open>?\<close>, the ones an element must give (lines 14--15).\<close>

definition props_required :: "string list" where
  "props_required = [''appointments'', ''onAppointmentClick'']"

text \<open>\<open>createElement\<close>: the props object of an element, attributes applied left to right.\<close>

fun add_attr :: "'s AppointmentListProps \<Rightarrow> 's jsx_attr \<Rightarrow> 's AppointmentListProps" where
  "add_attr p (AttrAppointments as) = p\<lparr>appointments := Some as\<rparr>"
| "add_attr p (AttrOnAppointmentClick f) = p\<lparr>onAppointmentClick := Some f\<rparr>"

definition element_props :: "'s jsx_attr list \<Rightarrow> 's AppointmentListProps" where
  "element_props attrs = foldl add_attr \<lparr>appointments = None, onAppointmentClick = None\<rparr> attrs"

text \<open>The compiler's check: every required member is given.\<close>

definition ts_accepts :: "'s jsx_attr list \<Rightarrow> bool" where
  "ts_accepts attrs = list_all (\<lambda>m. m \<in> set (map attr_name attrs)) props_required"

section \<open>Lemmas\<close>

lemma element_props_appointments:
  "appointments (foldl add_attr p attrs) =
     (if ''appointments'' \<in> set (map attr_name attrs)
      then Some (last [as. AttrAppointments as \<leftarrow> attrs]) else appointments p)"
proof (induction attrs arbitrary: p rule: rev_induct)
  case Nil
  then show ?case by simp
next
  case (snoc x xs)
  then show ?case by (cases x) auto
qed

lemma element_props_callback:
  "onAppointmentClick (foldl add_attr p attrs) =
     (if ''onAppointmentClick'' \<in> set (map attr_name attrs)
      then Some (last [f. AttrOnAppointmentClick f \<leftarrow> attrs]) else onAppointmentClick p)"
proof (induction attrs arbitrary: p rule: rev_induct)
  case Nil
  then show ?case by simp
next
  case (snoc x xs)
  then show ?case by (cases x) auto
qed

lemma ts_accepts_iff:
  "ts_accepts attrs \<longleftrightarrow>
     ''appointments'' \<in> set (map attr_name attrs) \<and> ''onAppointmentClick'' \<in> set (map attr_name attrs)"
  by (simp add: ts_accepts_def props_required_def)

lemma ts_accepts_props:
  assumes "ts_accepts attrs"
  shows "\<exists>as f. element_props attrs = \<lparr>appointments = Some as, onAppointmentClick = Some f\<rparr>"
proof -
  obtain as where a: "appointments (element_props attrs) = Some as"
    using assms by (simp add: ts_accepts_iff element_props_def element_props_appointments)
  obtain f where c: "onAppointmentClick (element_props attrs) = Some f"
    using assms by (simp add: ts_accepts_iff element_props_def element_props_callback)
  show ?thesis using a c by (cases "element_props attrs") auto
qed

section \<open>Properties of the check\<close>

text \<open>
  C18. Soundness of the props check for this component: an element the compiler accepts
  gets both props, renders without throwing, and a click anywhere inside its \<open>i\<close>-th
  item runs exactly the callback it was given on the \<open>i\<close>-th id; none of the list's
  TypeErrors (\<open>map\<close> of undefined, calling undefined) can occur.
\<close>

theorem ts_accepted_element_sound:
  assumes "ts_accepts attrs"
  shows "\<exists>as f t. element_props attrs = \<lparr>appointments = Some as, onAppointmentClick = Some f\<rparr>
    \<and> render_AppointmentList (element_props attrs) = Inr t
    \<and> (\<forall>i q s. path_nodes t (0 # 1 # i # q) \<noteq> None \<longrightarrow>
         dispatch_click t (0 # 1 # i # q) s = Some (outcome (f (id' (as ! i)) s) s))"
proof -
  obtain as f where p: "element_props attrs = \<lparr>appointments = Some as, onAppointmentClick = Some f\<rparr>"
    using ts_accepts_props [OF assms] by blast
  have "path_nodes (list_view (Some f) as) (0 # 1 # i # q) \<noteq> None \<Longrightarrow>
      dispatch_click (list_view (Some f) as) (0 # 1 # i # q) s = Some (outcome (f (id' (as ! i)) s) s)"
    for i q s using dispatch_list_view_item [of "Some f" as i q s] by (simp add: click_closure_def)
  then show ?thesis using p by (auto simp: render_list_view)
qed

theorem ts_accepted_element_sound_witness:
  "ts_accepts [AttrAppointments [sample_appointment], AttrOnAppointmentClick log_id]
   \<and> render_AppointmentList (element_props [AttrAppointments [sample_appointment], AttrOnAppointmentClick log_id])
       = Inr (list_view (Some log_id) [sample_appointment])
   \<and> dispatch_click (list_view (Some log_id) [sample_appointment]) [0, 1, 0, 0] [] = Some ([1], None)"
proof -
  let ?attrs = "[AttrAppointments [sample_appointment], AttrOnAppointmentClick log_id]"
  have acc: "ts_accepts ?attrs" by (simp add: ts_accepts_iff)
  have ep: "element_props ?attrs = \<lparr>appointments = Some [sample_appointment], onAppointmentClick = Some log_id\<rparr>"
    by (simp add: element_props_def)
  from ts_accepted_element_sound [OF acc] obtain as f t where
    p: "element_props ?attrs = \<lparr>appointments = Some as, onAppointmentClick = Some f\<rparr>"
    and r: "render_AppointmentList (element_props ?attrs) = Inr t"
    and c: "\<forall>i q s. path_nodes t (0 # 1 # i # q) \<noteq> None \<longrightarrow>
         dispatch_click t (0 # 1 # i # q) s = Some (outcome (f (id' (as ! i)) s) s)"
    by blast
  have asf: "as = [sample_appointment]" "f = log_id" using p ep by simp_all
  have t: "t = list_view (Some log_id) [sample_appointment]" using r ep by (simp add: render_list_view)
  have "path_nodes t [0, 1, 0, 0] \<noteq> None"
    by (simp add: t list_view_def item_view_def sample_appointment_def)
  with c have "dispatch_click t [0, 1, 0, 0] [] = Some (outcome (log_id 1 []) [])"
    by (simp add: asf sample_appointment_def)
  then show ?thesis using acc r t by (simp add: log_id_def outcome_def)
qed

end
