(* ===== verification/Session.thy ===== *)
theory Session
  imports AppointmentList
begin

text \<open>
  A session of the list inside a parent. The spec names the parent only by its contract
  (section 6): it passes the appointments and a callback taking an id; no such parent
  exists in the repository, so it is modelled from that contract. The parent keeps the
  id of the selected appointment and the history of selections; the session is a run
  of two kinds of events, new props from the parent and clicks of the user, each click
  dispatched on the tree the list renders for the current props.
\<close>

section \<open>The parent and the session\<close>

record parent_state =
  selected :: "int option"
  history :: "int list"

text \<open>The parent's \<open>onAppointmentClick\<close>: select the id and record it.\<close>

definition on_select :: "int \<Rightarrow> parent_state handler" where
  "on_select i ps = Inr (ps\<lparr>selected := Some i, history := history ps @ [i]\<rparr>)"

datatype ui_event = SetAppointments "appointment list" | Click "nat list"

record session =
  shown :: "appointment list"
  parent :: parent_state

definition session_props :: "session \<Rightarrow> parent_state AppointmentListProps" where
  "session_props st = \<lparr>appointments = Some (shown st), onAppointmentClick = Some on_select\<rparr>"

fun session_step :: "session \<Rightarrow> ui_event \<Rightarrow> session" where
  "session_step st (SetAppointments as) = st\<lparr>shown := as\<rparr>"
| "session_step st (Click p) =
     (case render_AppointmentList (session_props st) of
        Inl e \<Rightarrow> st
      | Inr tree \<Rightarrow>
          (case dispatch_click tree p (parent st) of
             None \<Rightarrow> st
           | Some (ps, err) \<Rightarrow> st\<lparr>parent := ps\<rparr>))"

fun session_run :: "session \<Rightarrow> ui_event list \<Rightarrow> session" where
  "session_run st [] = st"
| "session_run st (e # es) = session_run (session_step st e) es"

definition init_session :: session where
  "init_session = \<lparr>shown = [], parent = \<lparr>selected = None, history = []\<rparr>\<rparr>"

text \<open>
  The sessions the parent can reach when it only ever passes appointments drawn from a
  set \<open>U\<close> (its data source), and the user clicks anywhere.
\<close>

inductive reachable_session :: "appointment set \<Rightarrow> session \<Rightarrow> bool" for U where
  init: "reachable_session U init_session"
| set_appointments:
    "reachable_session U st \<Longrightarrow> set as \<subseteq> U \<Longrightarrow> reachable_session U (session_step st (SetAppointments as))"
| click: "reachable_session U st \<Longrightarrow> reachable_session U (session_step st (Click p))"

section \<open>The abstract specification of a session\<close>

text \<open>The item a path lands in, if it lands below the \<open>ul\<close>.\<close>

fun item_index :: "nat list \<Rightarrow> nat option" where
  "item_index (0 # Suc 0 # i # q) = Some i"
| "item_index p = None"

text \<open>The ids a click on \<open>p\<close> selects when \<open>as\<close> is shown: none or one.\<close>

definition click_ids :: "appointment list \<Rightarrow> nat list \<Rightarrow> int list" where
  "click_ids as p =
     (case item_index p of
        None \<Rightarrow> []
      | Some i \<Rightarrow>
          (case path_nodes (list_view (Some on_select) as) p of
             None \<Rightarrow> []
           | Some nodes \<Rightarrow> [id' (as ! i)]))"

fun expected_history :: "appointment list \<Rightarrow> ui_event list \<Rightarrow> int list" where
  "expected_history as [] = []"
| "expected_history as (SetAppointments as' # es) = expected_history as' es"
| "expected_history as (Click p # es) = click_ids as p @ expected_history as es"

section \<open>Lemmas\<close>

lemma item_index_Some: "item_index p = Some i \<longleftrightarrow> (\<exists>q. p = 0 # 1 # i # q)"
  by (induction p rule: item_index.induct) auto

lemma session_step_Click:
  "session_step st (Click p) =
     (case dispatch_click (list_view (Some on_select) (shown st)) p (parent st) of
        None \<Rightarrow> st
      | Some (ps, err) \<Rightarrow> st\<lparr>parent := ps\<rparr>)"
  by (simp add: session_props_def render_list_view)

lemma click_history:
  "history (parent (session_step st (Click p))) = history (parent st) @ click_ids (shown st) p
   \<and> shown (session_step st (Click p)) = shown st
   \<and> selected (parent (session_step st (Click p))) =
       (if click_ids (shown st) p = [] then selected (parent st)
        else Some (last (click_ids (shown st) p)))"
proof (cases "item_index p")
  case None
  then have out: "\<not> (\<exists>i q. p = 0 # 1 # i # q)" using item_index_Some by fastforce
  show ?thesis
  proof (cases "path_nodes (list_view (Some on_select) (shown st)) p")
    case None
    then have "dispatch_click (list_view (Some on_select) (shown st)) p (parent st) = None"
      by (simp add: dispatch_click_def listeners_def)
    with \<open>item_index p = None\<close> show ?thesis
      by (simp add: click_ids_def session_step_Click del: session_step.simps)
  next
    case (Some nodes)
    then have "dispatch_click (list_view (Some on_select) (shown st)) p (parent st) = Some (parent st, None)"
      using dispatch_list_view_outside [of "Some on_select" "shown st" p "parent st"] out by simp
    with \<open>item_index p = None\<close> show ?thesis
      by (simp add: click_ids_def session_step_Click del: session_step.simps)
  qed
next
  case (Some i)
  then obtain q where p: "p = 0 # 1 # i # q" using item_index_Some by blast
  show ?thesis
  proof (cases "path_nodes (list_view (Some on_select) (shown st)) p")
    case None
    then have "dispatch_click (list_view (Some on_select) (shown st)) p (parent st) = None"
      by (simp add: dispatch_click_def listeners_def)
    with None \<open>item_index p = Some i\<close> show ?thesis
      by (simp add: click_ids_def session_step_Click del: session_step.simps)
  next
    case (Some nodes)
    then have "dispatch_click (list_view (Some on_select) (shown st)) p (parent st) =
        Some (outcome (click_closure (Some on_select) (id' (shown st ! i)) (parent st)) (parent st))"
      using dispatch_list_view_item [of "Some on_select" "shown st" i q "parent st"] p by simp
    with Some \<open>item_index p = Some i\<close> show ?thesis
      by (simp add: click_ids_def click_closure_def on_select_def outcome_def session_step_Click
          del: session_step.simps)
  qed
qed

lemma click_ids_in_shown: "set (click_ids as p) \<subseteq> id' ` set as"
proof (cases "item_index p")
  case (Some i)
  then obtain q where p: "p = 0 # 1 # i # q" using item_index_Some by blast
  show ?thesis
  proof (cases "path_nodes (list_view (Some on_select) as) p")
    case (Some nodes)
    then have "i < length as"
      using dispatch_list_view_item [of "Some on_select" as i q] p by simp
    with Some \<open>item_index p = Some i\<close> show ?thesis
      by (simp add: click_ids_def session_step_Click del: session_step.simps)
  qed (simp add: click_ids_def \<open>item_index p = Some i\<close>)
qed (simp add: click_ids_def)

section \<open>Properties of a session\<close>

text \<open>
  C10. Ordering: over any interleaving of new props and clicks, the parent's history
  grows by exactly the ids of the items clicked, in the order of the clicks, each read
  from the list shown at the time of its click.
\<close>

theorem session_history_in_click_order:
  "history (parent (session_run st es)) = history (parent st) @ expected_history (shown st) es"
proof (induction es arbitrary: st)
  case Nil
  then show ?case by simp
next
  case (Cons e es)
  then show ?case
  proof (cases e)
    case (SetAppointments as)
    with Cons.IH [of "session_step st e"] show ?thesis by simp
  next
    case (Click p)
    with Cons.IH [of "session_step st e"] click_history [of st p] show ?thesis by simp
  qed
qed

text \<open>
  C11. Safety, by rule induction over the reachable sessions: when the parent only passes
  appointments from its data source \<open>U\<close>, the callback is only ever called with ids of
  appointments of \<open>U\<close>, and the selected id is one of them.
\<close>

theorem reachable_selects_supplied_ids:
  assumes "reachable_session U st"
  shows "set (history (parent st)) \<subseteq> id' ` U \<and> (\<forall>i. selected (parent st) = Some i \<longrightarrow> i \<in> id' ` U)"
proof -
  have "set (shown st) \<subseteq> U \<and> set (history (parent st)) \<subseteq> id' ` U
        \<and> (\<forall>i. selected (parent st) = Some i \<longrightarrow> i \<in> set (history (parent st)))"
    using assms
  proof (induction rule: reachable_session.induct)
    case init
    then show ?case by (simp add: init_session_def)
  next
    case (set_appointments st as)
    then show ?case by simp
  next
    case (click st p)
    have "set (click_ids (shown st) p) \<subseteq> id' ` U"
      using click_ids_in_shown [of "shown st" p] click.IH by blast
    with click.IH click_history [of st p] show ?case by auto
  qed
  then show ?thesis by blast
qed

theorem reachable_selects_supplied_ids_witness:
  "reachable_session {sample_appointment}
     (session_step (session_step init_session (SetAppointments [sample_appointment])) (Click [0, 1, 0, 2]))
   \<and> history (parent (session_step (session_step init_session (SetAppointments [sample_appointment]))
        (Click [0, 1, 0, 2]))) = [1]
   \<and> set (history (parent (session_step (session_step init_session (SetAppointments [sample_appointment]))
        (Click [0, 1, 0, 2])))) \<subseteq> id' ` {sample_appointment}"
proof -
  let ?st = "session_step (session_step init_session (SetAppointments [sample_appointment])) (Click [0, 1, 0, 2])"
  have r: "reachable_session {sample_appointment} ?st"
    by (rule reachable_session.click, rule reachable_session.set_appointments)
       (simp_all add: reachable_session.init)
  have h: "history (parent ?st) = [1]"
    by (simp add: init_session_def session_props_def render_list_view list_view_def item_view_def
        dispatch_click_def listeners_def click_closure_def on_select_def sample_appointment_def
        text_node_def)
  from r h reachable_selects_supplied_ids [OF r] show ?thesis by blast
qed

end
