(* ===== verification/Reconcile.thy ===== *)
theory Reconcile
  imports AppointmentList
begin

text \<open>
  React's reconciliation of keyed children (\<open>reconcileChildrenArray\<close>), which decides,
  when the list renders again with new props, which existing item each new item takes
  over (keeping its DOM node and state) and which items are created afresh. React is not
  part of this repository; the algorithm is modelled from its source:
  \<^enum> a first pass walks old and new children in step while their keys agree, and
    reuses each old child in place;
  \<^enum> if the new children are exhausted the rest of the old ones are deleted; if the old
    ones are, the rest of the new ones are created;
  \<^enum> otherwise the remaining old children go into a map from key to child, filled in
    order (\<open>existingChildren.set(key, child)\<close>, so of two children with the same key
    the later one wins), and each remaining new child takes the child its key maps to,
    which is then removed from the map, or is created when there is none.
  A result is, for each new child, the position of the old child it reuses, or
  \<open>None\<close> for a child created afresh.
\<close>

section \<open>The algorithm\<close>

fun common_prefix :: "string list \<Rightarrow> string list \<Rightarrow> nat" where
  "common_prefix (x # xs) (y # ys) = (if x = y then Suc (common_prefix xs ys) else 0)"
| "common_prefix xs ys = 0"

fun map_remaining :: "(string \<rightharpoonup> nat) \<Rightarrow> nat \<Rightarrow> string list \<Rightarrow> (string \<rightharpoonup> nat)" where
  "map_remaining m i [] = m"
| "map_remaining m i (k # ks) = map_remaining (m(k \<mapsto> i)) (Suc i) ks"

fun update_from_map :: "(string \<rightharpoonup> nat) \<Rightarrow> string list \<Rightarrow> nat option list" where
  "update_from_map m [] = []"
| "update_from_map m (k # ks) =
     (case m k of
        None \<Rightarrow> None # update_from_map m ks
      | Some j \<Rightarrow> Some j # update_from_map (m(k := None)) ks)"

definition reconcile_keys :: "string list \<Rightarrow> string list \<Rightarrow> nat option list" where
  "reconcile_keys old new =
     (let i = common_prefix old new in
      map Some [0..<i] @
      (if i = length new then []
       else if i = length old then replicate (length new - i) None
       else update_from_map (map_remaining Map.empty i (drop i old)) (drop i new)))"

section \<open>The specification\<close>

text \<open>The first position of a key, if it occurs.\<close>

fun key_index :: "'a list \<Rightarrow> 'a \<Rightarrow> nat option" where
  "key_index [] k = None"
| "key_index (x # xs) k = (if x = k then Some 0 else map_option Suc (key_index xs k))"

text \<open>The keys of the items of a rendered list, in order.\<close>

definition item_keys :: "'s vnode list \<Rightarrow> string list" where
  "item_keys t = List.map_filter node_key (ul_items t)"

section \<open>Lemmas\<close>

lemma key_index_Some: "key_index xs k = Some j \<Longrightarrow> j < length xs \<and> xs ! j = k"
  by (induction xs arbitrary: j) (auto split: if_splits)

lemma key_index_None: "key_index xs k = None \<longleftrightarrow> k \<notin> set xs"
  by (induction xs) auto

lemma key_index_nth: "distinct xs \<Longrightarrow> j < length xs \<Longrightarrow> key_index xs (xs ! j) = Some j"
proof (induction xs arbitrary: j)
  case Nil
  then show ?case by simp
next
  case (Cons x xs)
  then show ?case by (cases j) (auto simp: nth_mem)
qed

lemma key_index_drop:
  "k \<notin> set (take i xs) \<Longrightarrow> key_index xs k = map_option ((+) i) (key_index (drop i xs) k)"
proof (induction xs arbitrary: i)
  case Nil
  then show ?case by simp
next
  case (Cons x xs)
  then show ?case by (cases i) (auto simp: option.map_comp comp_def)
qed

lemma key_index_map_inj: "inj f \<Longrightarrow> key_index (map f xs) (f x) = key_index xs x"
  by (induction xs) (auto dest: injD)

lemma map_remaining_distinct:
  "distinct ks \<Longrightarrow>
   map_remaining m i ks k = (case key_index ks k of Some j \<Rightarrow> Some (i + j) | None \<Rightarrow> m k)"
proof (induction ks arbitrary: m i)
  case Nil
  then show ?case by simp
next
  case (Cons k' ks)
  then have "key_index ks k' = None" and "distinct ks" by (simp_all add: key_index_None)
  with Cons.IH show ?case
    by (cases "k = k'") (simp_all split: option.split)
qed

lemma update_from_map_distinct: "distinct ks \<Longrightarrow> update_from_map m ks = map m ks"
proof (induction ks arbitrary: m)
  case Nil
  then show ?case by simp
next
  case (Cons k ks)
  then have "map (m(k := None)) ks = map m ks" by (auto intro: map_cong)
  with Cons show ?case by (auto split: option.split)
qed

lemma common_prefix_props:
  "common_prefix xs ys \<le> length xs \<and> common_prefix xs ys \<le> length ys
   \<and> take (common_prefix xs ys) xs = take (common_prefix xs ys) ys"
  by (induction xs ys rule: common_prefix.induct) auto

text \<open>
  With distinct keys on both sides, React's two-pass algorithm matches each new child
  with the old child of the same key: the first pass is an optimisation of matching by
  key, and the map never meets a duplicate.
\<close>

lemma reconcile_keys_distinct:
  assumes "distinct old" and "distinct new"
  shows "reconcile_keys old new = map (key_index old) new"
proof -
  define i where "i = common_prefix old new"
  have i_le: "i \<le> length old" "i \<le> length new" and tk: "take i old = take i new"
    using common_prefix_props [of old new] by (simp_all add: i_def)
  have pre: "map Some [0..<i] = map (key_index old) (take i new)"
  proof (rule nth_equalityI)
    show "length (map Some [0..<i]) = length (map (key_index old) (take i new))"
      using i_le by simp
  next
    fix j assume "j < length (map Some [0..<i])"
    then have j: "j < i" by simp
    then have "take i new ! j = old ! j" using tk by (metis nth_take)
    then show "map Some [0..<i] ! j = map (key_index old) (take i new) ! j"
      using j i_le key_index_nth [OF assms(1), of j] by simp
  qed
  have notin: "k \<notin> set (take i old)" if "k \<in> set (drop i new)" for k
  proof -
    have "set (take i new) \<inter> set (drop i new) = {}"
      using assms(2) by (metis append_take_drop_id distinct_append)
    with that tk show ?thesis by auto
  qed
  have rest: "map (map_remaining Map.empty i (drop i old)) (drop i new) = map (key_index old) (drop i new)"
  proof (rule map_cong [OF refl])
    fix k assume k: "k \<in> set (drop i new)"
    have "map_remaining Map.empty i (drop i old) k =
          (case key_index (drop i old) k of Some j \<Rightarrow> Some (i + j) | None \<Rightarrow> None)"
      using assms(1) by (simp add: map_remaining_distinct)
    also have "\<dots> = key_index old k"
      using key_index_drop [OF notin [OF k]] by (simp split: option.split)
    finally show "map_remaining Map.empty i (drop i old) k = key_index old k" .
  qed
  have "map (key_index old) new = map (key_index old) (take i new) @ map (key_index old) (drop i new)"
    by (metis append_take_drop_id map_append)
  moreover have "map (key_index old) (drop i new) =
      (if i = length new then []
       else if i = length old then replicate (length new - i) None
       else update_from_map (map_remaining Map.empty i (drop i old)) (drop i new))"
  proof -
    have "i = length old \<Longrightarrow> map (key_index old) (drop i new) = replicate (length new - i) None"
    proof -
      assume io: "i = length old"
      have "\<forall>k \<in> set (drop i new). key_index old k = None"
        using notin io by (simp add: key_index_None)
      then show ?thesis by (simp add: map_replicate_const cong: map_cong)
    qed
    moreover have "update_from_map (map_remaining Map.empty i (drop i old)) (drop i new) =
        map (map_remaining Map.empty i (drop i old)) (drop i new)"
      using assms(2) by (simp add: update_from_map_distinct)
    ultimately show ?thesis using rest i_le by auto
  qed
  ultimately show ?thesis using pre by (simp add: reconcile_keys_def Let_def flip: i_def)
qed

lemma item_keys_list_view: "item_keys (list_view cb as) = map item_key as"
  by (induction as) (simp_all add: item_keys_def ul_items_def list_view_def item_view_def
      item_key_def List.map_filter_simps)

lemma update_from_map_length [simp]: "length (update_from_map m ks) = length ks"
  by (induction ks arbitrary: m) (simp_all split: option.split)

lemma update_from_map_nth:
  assumes "\<forall>k j. m k = Some j \<longrightarrow> P k j" and "n < length ks" and "update_from_map m ks ! n = Some p"
  shows "P (ks ! n) p"
  using assms
proof (induction ks arbitrary: m n)
  case Nil
  then show ?case by simp
next
  case (Cons k ks)
  define m2 where "m2 = m(k := None)"
  have m2: "\<forall>k' j. m2 k' = Some j \<longrightarrow> P k' j" using Cons.prems(1) by (simp add: m2_def)
  show ?case
  proof (cases n)
    case 0
    with Cons.prems show ?thesis by (auto split: option.splits)
  next
    case (Suc n')
    have n': "n' < length ks" using Cons.prems(2) Suc by simp
    show ?thesis
    proof (cases "m k")
      case None
      with Cons.prems Suc have "update_from_map m ks ! n' = Some p" by simp
      from Cons.IH [OF Cons.prems(1) n' this] Suc show ?thesis by simp
    next
      case (Some j)
      with Cons.prems Suc have "update_from_map m2 ks ! n' = Some p" by (simp add: m2_def)
      from Cons.IH [OF m2 n' this] Suc show ?thesis by simp
    qed
  qed
qed

lemma update_from_map_reuse:
  assumes "\<forall>k j. m k = Some j \<longrightarrow> old ! j = k"
  shows "distinct (List.map_filter id (update_from_map m ks))
    \<and> set (List.map_filter id (update_from_map m ks)) \<subseteq> ran m"
  using assms
proof (induction ks arbitrary: m)
  case Nil
  then show ?case by (simp add: List.map_filter_simps)
next
  case (Cons k ks)
  show ?case
  proof (cases "m k")
    case None
    with Cons show ?thesis by (simp add: List.map_filter_simps)
  next
    case (Some j)
    define m2 where "m2 = m(k := None)"
    have m2: "\<forall>k' j'. m2 k' = Some j' \<longrightarrow> old ! j' = k'" using Cons.prems by (simp add: m2_def)
    have fresh: "j \<notin> ran m2"
    proof
      assume "j \<in> ran m2"
      then obtain k' where "m2 k' = Some j" by (auto simp: ran_def)
      with Cons.prems Some show False by (auto simp: m2_def split: if_splits)
    qed
    have sub: "ran m2 \<subseteq> ran m" by (auto simp: ran_def m2_def)
    have j: "j \<in> ran m" using Some by (auto simp: ran_def)
    have eq: "List.map_filter id (update_from_map m (k # ks)) =
        j # List.map_filter id (update_from_map m2 ks)"
      using Some by (simp add: m2_def List.map_filter_simps)
    show ?thesis unfolding eq using Cons.IH [OF m2] fresh sub j by (auto simp: id_def)
  qed
qed

lemma map_remaining_Some:
  "map_remaining m i ks k = Some j \<Longrightarrow>
   m k = Some j \<or> (i \<le> j \<and> j < i + length ks \<and> ks ! (j - i) = k)"
proof (induction ks arbitrary: m i)
  case Nil
  then show ?case by simp
next
  case (Cons k' ks)
  from Cons.IH [OF Cons.prems [simplified]] show ?case
    by (auto split: if_splits simp: nth_Cons' Suc_diff_le)
qed

lemma map_remaining_drop:
  "map_remaining Map.empty i (drop i old) k = Some j \<Longrightarrow> i \<le> j \<and> j < length old \<and> old ! j = k"
  using map_remaining_Some [of Map.empty i "drop i old" k j] by auto

lemma map_filter_id_Some_append:
  "List.map_filter id (map Some xs @ ys) = xs @ List.map_filter id ys"
  by (induction xs) (simp_all add: List.map_filter_simps)

text \<open>
  Soundness of the algorithm on all inputs, duplicate keys included: one result per new
  child, a reused old child has the new child's key, and no old child is reused twice.
\<close>

lemma reconcile_keys_length [simp]: "length (reconcile_keys old new) = length new"
  using common_prefix_props [of old new] by (simp add: reconcile_keys_def Let_def)

lemma reconcile_keys_match:
  assumes "j < length new" and "reconcile_keys old new ! j = Some p"
  shows "p < length old \<and> old ! p = new ! j"
proof -
  define i where "i = common_prefix old new"
  have i_le: "i \<le> length old" "i \<le> length new" and tk: "take i old = take i new"
    using common_prefix_props [of old new] by (simp_all add: i_def)
  define M where "M = map_remaining Map.empty i (drop i old)"
  have r: "reconcile_keys old new = map Some [0..<i] @
      (if i = length new then [] else if i = length old then replicate (length new - i) None
       else update_from_map M (drop i new))"
    by (simp add: reconcile_keys_def Let_def M_def i_def)
  show ?thesis
  proof (cases "j < i")
    case True
    then have "p = j" using assms(2) r by (simp add: nth_append)
    moreover have "old ! j = new ! j" using True tk by (metis nth_take)
    ultimately show ?thesis using True i_le by simp
  next
    case False
    then have ij: "i \<noteq> length new" "i \<le> j" using assms(1) by simp_all
    have ni: "i \<noteq> length old"
    proof
      assume "i = length old"
      with assms r ij show False by (simp add: nth_append)
    qed
    have u: "update_from_map M (drop i new) ! (j - i) = Some p"
      using assms(2) r ij ni by (simp add: nth_append)
    have "\<forall>k q. M k = Some q \<longrightarrow> q < length old \<and> old ! q = k"
      using map_remaining_drop by (simp add: M_def)
    from update_from_map_nth [OF this _ u] assms(1) ij show ?thesis by simp
  qed
qed

lemma reconcile_keys_reuse_once: "distinct (List.map_filter id (reconcile_keys old new))"
proof -
  define i where "i = common_prefix old new"
  define M where "M = map_remaining Map.empty i (drop i old)"
  have M: "\<forall>k q. M k = Some q \<longrightarrow> old ! q = k" and ranM: "ran M \<subseteq> {i..}"
    using map_remaining_drop by (auto simp: M_def ran_def)
  have rest: "distinct (List.map_filter id (update_from_map M (drop i new)))
      \<and> set (List.map_filter id (update_from_map M (drop i new))) \<subseteq> {i..}"
    using update_from_map_reuse [OF M] ranM by blast
  have none: "List.map_filter id (replicate n (None :: nat option)) = []" for n
    by (induction n) (simp_all add: List.map_filter_simps)
  show ?thesis
    using rest by (auto simp: reconcile_keys_def Let_def map_filter_id_Some_append none
        simp flip: i_def M_def)
qed

section \<open>Keys of the rendered list\<close>

lemma item_keys_render:
  "render_AppointmentList \<lparr>appointments = Some as, onAppointmentClick = cb\<rparr> = Inr t \<Longrightarrow>
     item_keys t = map item_key as"
  by (auto simp: render_list_view item_keys_list_view)

lemma inj_js_int_to_string: "inj js_int_to_string"
  by (simp add: inj_def js_int_to_string_inj)

lemma map_item_key: "map item_key as = map js_int_to_string (map id' as)"
  by (simp add: item_key_def)

lemma distinct_item_keys: "distinct (map item_key as) \<longleftrightarrow> distinct (map id' as)"
  unfolding map_item_key using inj_js_int_to_string by (metis distinct_map inj_on_subset subset_UNIV)

lemma key_index_item_key: "key_index (map item_key as) (item_key b) = key_index (map id' as) (id' b)"
  unfolding map_item_key item_key_def by (rule key_index_map_inj [OF inj_js_int_to_string])

section \<open>Properties of re-rendering\<close>

text \<open>
  C13. When the list renders again with new appointments and the ids on both sides are
  distinct, React's reconciliation matches items by appointment id: the item of each new
  appointment takes over the existing item of the appointment with the same id, wherever
  it stood, and is created afresh exactly when no shown appointment has its id. The first,
  positional pass of the algorithm changes nothing to that.
\<close>

theorem rerender_matches_by_id:
  assumes "render_AppointmentList \<lparr>appointments = Some as, onAppointmentClick = cb\<rparr> = Inr t1"
    and "render_AppointmentList \<lparr>appointments = Some bs, onAppointmentClick = cb'\<rparr> = Inr t2"
    and "distinct (map id' as)" and "distinct (map id' bs)"
  shows "reconcile_keys (item_keys t1) (item_keys t2) = map (\<lambda>b. key_index (map id' as) (id' b)) bs"
proof -
  have "distinct (map item_key as)" and "distinct (map item_key bs)"
    using assms(3,4) by (simp_all add: distinct_item_keys)
  then show ?thesis
    using item_keys_render [OF assms(1)] item_keys_render [OF assms(2)]
    by (simp add: reconcile_keys_distinct key_index_item_key)
qed

theorem rerender_matches_by_id_witness:
  "render_AppointmentList \<lparr>appointments = Some [sample_appointment, sample_appointment\<lparr>id' := 2\<rparr>],
       onAppointmentClick = (None :: (int \<Rightarrow> int list handler) option)\<rparr>
     = Inr (list_view None [sample_appointment, sample_appointment\<lparr>id' := 2\<rparr>])
   \<and> render_AppointmentList \<lparr>appointments = Some [sample_appointment\<lparr>id' := 3\<rparr>, sample_appointment],
       onAppointmentClick = (None :: (int \<Rightarrow> int list handler) option)\<rparr>
     = Inr (list_view None [sample_appointment\<lparr>id' := 3\<rparr>, sample_appointment])
   \<and> reconcile_keys (item_keys (list_view (None :: (int \<Rightarrow> int list handler) option)
         [sample_appointment, sample_appointment\<lparr>id' := 2\<rparr>]))
       (item_keys (list_view (None :: (int \<Rightarrow> int list handler) option)
         [sample_appointment\<lparr>id' := 3\<rparr>, sample_appointment]))
     = [None, Some 0]"
proof -
  have r1: "render_AppointmentList \<lparr>appointments = Some [sample_appointment, sample_appointment\<lparr>id' := 2\<rparr>],
       onAppointmentClick = (None :: (int \<Rightarrow> int list handler) option)\<rparr>
     = Inr (list_view None [sample_appointment, sample_appointment\<lparr>id' := 2\<rparr>])"
    by (simp add: render_list_view)
  have r2: "render_AppointmentList \<lparr>appointments = Some [sample_appointment\<lparr>id' := 3\<rparr>, sample_appointment],
       onAppointmentClick = (None :: (int \<Rightarrow> int list handler) option)\<rparr>
     = Inr (list_view None [sample_appointment\<lparr>id' := 3\<rparr>, sample_appointment])"
    by (simp add: render_list_view)
  show ?thesis
    using rerender_matches_by_id [OF r1 r2] r1 r2 by (simp add: sample_appointment_def)
qed

text \<open>
  C14. Whatever the two lists, duplicate ids included, re-rendering never gives an item
  to an appointment of another id: each new item either is created afresh or takes over
  an existing item whose appointment has its id, and no existing item is taken over by
  two new ones.
\<close>

theorem rerender_reuse_sound:
  assumes "render_AppointmentList \<lparr>appointments = Some as, onAppointmentClick = cb\<rparr> = Inr t1"
    and "render_AppointmentList \<lparr>appointments = Some bs, onAppointmentClick = cb'\<rparr> = Inr t2"
  shows "length (reconcile_keys (item_keys t1) (item_keys t2)) = length bs
    \<and> (\<forall>j p. j < length bs \<longrightarrow> reconcile_keys (item_keys t1) (item_keys t2) ! j = Some p \<longrightarrow>
         p < length as \<and> id' (as ! p) = id' (bs ! j))
    \<and> distinct (List.map_filter id (reconcile_keys (item_keys t1) (item_keys t2)))"
proof -
  have k1: "item_keys t1 = map item_key as" and k2: "item_keys t2 = map item_key bs"
    using item_keys_render assms by blast+
  have "p < length as \<and> id' (as ! p) = id' (bs ! j)"
    if "j < length bs" and "reconcile_keys (map item_key as) (map item_key bs) ! j = Some p" for j p
  proof -
    have "p < length as \<and> map item_key as ! p = map item_key bs ! j"
      using reconcile_keys_match [where old = "map item_key as" and new = "map item_key bs", OF _ that(2)]
        that(1) by simp
    then show ?thesis using that(1) by (auto simp: item_key_def js_int_to_string_inj)
  qed
  then show ?thesis
    unfolding k1 k2 by (simp add: reconcile_keys_reuse_once)
qed

theorem rerender_reuse_sound_witness:
  "render_AppointmentList \<lparr>appointments = Some [sample_appointment, sample_appointment\<lparr>id' := 2\<rparr>],
       onAppointmentClick = (None :: (int \<Rightarrow> int list handler) option)\<rparr>
     = Inr (list_view None [sample_appointment, sample_appointment\<lparr>id' := 2\<rparr>])
   \<and> render_AppointmentList \<lparr>appointments = Some [sample_appointment\<lparr>id' := 2\<rparr>],
       onAppointmentClick = (None :: (int \<Rightarrow> int list handler) option)\<rparr>
     = Inr (list_view None [sample_appointment\<lparr>id' := 2\<rparr>])
   \<and> length (reconcile_keys (item_keys (list_view (None :: (int \<Rightarrow> int list handler) option)
         [sample_appointment, sample_appointment\<lparr>id' := 2\<rparr>]))
       (item_keys (list_view (None :: (int \<Rightarrow> int list handler) option)
         [sample_appointment\<lparr>id' := 2\<rparr>]))) = 1"
proof -
  have r1: "render_AppointmentList \<lparr>appointments = Some [sample_appointment, sample_appointment\<lparr>id' := 2\<rparr>],
       onAppointmentClick = (None :: (int \<Rightarrow> int list handler) option)\<rparr>
     = Inr (list_view None [sample_appointment, sample_appointment\<lparr>id' := 2\<rparr>])"
    by (simp add: render_list_view)
  have r2: "render_AppointmentList \<lparr>appointments = Some [sample_appointment\<lparr>id' := 2\<rparr>],
       onAppointmentClick = (None :: (int \<Rightarrow> int list handler) option)\<rparr>
     = Inr (list_view None [sample_appointment\<lparr>id' := 2\<rparr>])"
    by (simp add: render_list_view)
  show ?thesis
    using rerender_reuse_sound [OF r1 r2] r1 r2 by simp
qed

text \<open>
  C15. Ids are the keys, and the code does not require them to be distinct. With two
  appointments sharing an id, re-rendering the same appointments in another order
  creates an item afresh for an appointment that was on screen (its DOM node and state
  are lost), and deletes the item that showed it: the later of two equal keys shadows
  the earlier in React's map of existing children.
\<close>

theorem duplicate_ids_remount:
  "\<exists>as t1 t2 j.
     render_AppointmentList \<lparr>appointments = Some as,
       onAppointmentClick = (None :: (int \<Rightarrow> int list handler) option)\<rparr> = Inr t1
   \<and> render_AppointmentList \<lparr>appointments = Some (rev as),
       onAppointmentClick = (None :: (int \<Rightarrow> int list handler) option)\<rparr> = Inr t2
   \<and> distinct as \<and> j < length as
   \<and> reconcile_keys (item_keys t1) (item_keys t2) ! j = None"
proof -
  let ?as = "[sample_appointment, sample_appointment\<lparr>patient := ''Bob''\<rparr>, sample_appointment\<lparr>id' := 2\<rparr>]"
  have keys: "map item_key ?as = [''1'', ''1'', ''2'']"
    by code_simp
  have "reconcile_keys (map item_key ?as) (map item_key (rev ?as)) = [Some 2, Some 1, None]"
    unfolding rev_map [symmetric] keys by (simp add: reconcile_keys_def)
  moreover have "distinct ?as" by (simp add: sample_appointment_def)
  ultimately show ?thesis
    by (intro exI [of _ ?as]) (simp add: render_list_view item_keys_list_view, rule exI [of _ 2], simp)
qed

end
