(* ===== verification/Mounted.thy ===== *)
theory Mounted
  imports Session Reconcile
begin

text \<open>
  The list inside its parent, with the identity of the DOM item (the \<open>li\<close> and the
  state React keeps with it) of each shown appointment. New props are reconciled
  against the items on screen by key (\<open>Reconcile\<close>): a new appointment takes over the
  node of the item it is matched with, or gets a fresh node from a counter. Clicks leave
  the nodes alone. The lemmas show that every step keeps one distinct node per shown
  appointment; the properties, that with distinct ids an appointment that stays on
  screen keeps its node wherever it moves, and that an appointment whose id was not on
  screen gets a node none of the shown ones had.
\<close>

section \<open>Mounted items\<close>

record mounted =
  msession :: session
  nodes :: "nat list"
  next_node :: nat

text \<open>The nodes of the new items: taken over, or fresh from the counter.\<close>

fun assign_nodes :: "nat list \<Rightarrow> nat \<Rightarrow> nat option list \<Rightarrow> nat list \<times> nat" where
  "assign_nodes olds n [] = ([], n)"
| "assign_nodes olds n (None # rs) = (let (ns, n') = assign_nodes olds (Suc n) rs in (n # ns, n'))"
| "assign_nodes olds n (Some p # rs) = (let (ns, n') = assign_nodes olds n rs in (olds ! p # ns, n'))"

text \<open>The keys React reads from what the list renders for the current props.\<close>

definition rendered_keys :: "session \<Rightarrow> string list" where
  "rendered_keys st =
     (case render_AppointmentList (session_props st) of Inl e \<Rightarrow> [] | Inr t \<Rightarrow> item_keys t)"

fun mounted_step :: "mounted \<Rightarrow> ui_event \<Rightarrow> mounted" where
  "mounted_step m (SetAppointments bs) =
     (let st' = session_step (msession m) (SetAppointments bs);
          r = reconcile_keys (rendered_keys (msession m)) (rendered_keys st');
          (ns, n') = assign_nodes (nodes m) (next_node m) r
      in m\<lparr>msession := st', nodes := ns, next_node := n'\<rparr>)"
| "mounted_step m (Click p) = m\<lparr>msession := session_step (msession m) (Click p)\<rparr>"

definition init_mounted :: mounted where
  "init_mounted = \<lparr>msession = init_session, nodes = [], next_node = 0\<rparr>"

text \<open>
  The invariant: one node per shown appointment, pairwise distinct, all below the
  counter.
\<close>

definition mounted_inv :: "mounted \<Rightarrow> bool" where
  "mounted_inv m =
     (length (nodes m) = length (shown (msession m)) \<and> distinct (nodes m)
      \<and> list_all (\<lambda>x. x < next_node m) (nodes m))"

section \<open>Lemmas\<close>

lemma set_map_filter_id: "set (List.map_filter id rs) = {q. Some q \<in> set rs}"
  by (induction rs) (auto simp: List.map_filter_simps split: option.splits)

lemma assign_nodes_length [simp]: "length (fst (assign_nodes olds n rs)) = length rs"
  by (induction olds n rs rule: assign_nodes.induct) (simp_all add: split_beta)

lemma assign_nodes_counter: "n \<le> snd (assign_nodes olds n rs)"
  by (induction olds n rs rule: assign_nodes.induct) (auto split: prod.split)

lemma assign_nodes_Some:
  "j < length rs \<Longrightarrow> rs ! j = Some p \<Longrightarrow> fst (assign_nodes olds n rs) ! j = olds ! p"
proof (induction olds n rs arbitrary: j rule: assign_nodes.induct)
  case (1 olds n)
  then show ?case by simp
next
  case (2 olds n rs)
  then show ?case by (cases j) (auto split: prod.split)
next
  case (3 olds n p' rs)
  then show ?case by (cases j) (auto split: prod.split)
qed

lemma assign_nodes_set:
  "set (fst (assign_nodes olds n rs)) \<subseteq>
     (\<lambda>q. olds ! q) ` {q. Some q \<in> set rs} \<union> {x. n \<le> x \<and> x < snd (assign_nodes olds n rs)}"
proof (induction olds n rs rule: assign_nodes.induct)
  case (1 olds n)
  then show ?case by simp
next
  case (2 olds n rs)
  then show ?case using assign_nodes_counter [of "Suc n" olds rs] by (auto split: prod.splits)
next
  case (3 olds n p rs)
  then show ?case by (auto split: prod.splits)
qed

lemma assign_nodes_distinct:
  assumes "distinct olds" and "list_all (\<lambda>x. x < n) olds"
    and "distinct (List.map_filter id rs)" and "\<forall>q. Some q \<in> set rs \<longrightarrow> q < length olds"
  shows "distinct (fst (assign_nodes olds n rs))
    \<and> list_all (\<lambda>x. x < snd (assign_nodes olds n rs)) (fst (assign_nodes olds n rs))"
  using assms
proof (induction olds n rs rule: assign_nodes.induct)
  case (1 olds n)
  then show ?case by simp
next
  case (2 olds n rs)
  obtain ns n' where a: "assign_nodes olds (Suc n) rs = (ns, n')" by fastforce
  have lt: "list_all (\<lambda>x. x < Suc n) olds" using "2.prems"(2) by (auto simp: list_all_iff)
  have ih: "distinct ns \<and> list_all (\<lambda>x. x < n') ns"
    using "2.IH" [OF "2.prems"(1) lt] "2.prems"(3,4) a by (simp add: List.map_filter_simps)
  have "n \<notin> set ns"
  proof
    assume "n \<in> set ns"
    with assign_nodes_set [of olds "Suc n" rs] a obtain q where
      "Some q \<in> set rs" and "olds ! q = n" by auto
    with "2.prems"(2,4) show False by (auto simp: list_all_iff)
  qed
  moreover have "n < n'" using assign_nodes_counter [of "Suc n" olds rs] a by simp
  ultimately show ?case using ih a by simp
next
  case (3 olds n p rs)
  obtain ns n' where a: "assign_nodes olds n rs = (ns, n')" by fastforce
  have d: "p \<notin> set (List.map_filter id rs)" and d': "distinct (List.map_filter id rs)"
    using "3.prems"(3) by (simp_all add: List.map_filter_simps id_def)
  have ih: "distinct ns \<and> list_all (\<lambda>x. x < n') ns"
    using "3.IH" "3.prems"(1,2,4) d' a by (simp add: id_def)
  have p: "p < length olds" using "3.prems"(4) by simp
  then have pn: "olds ! p < n" using "3.prems"(2) by (simp add: list_all_length)
  have "olds ! p \<notin> set ns"
  proof
    assume "olds ! p \<in> set ns"
    with assign_nodes_set [of olds n rs] a pn obtain q where
      q: "Some q \<in> set rs" and eq: "olds ! q = olds ! p" by auto
    have "q \<noteq> p" using d q by (auto simp: set_map_filter_id)
    moreover have "q < length olds" using "3.prems"(4) q by simp
    ultimately show False using nth_eq_iff_index_eq [of olds q p] "3.prems"(1) p eq by simp
  qed
  moreover have "olds ! p < n'" using assign_nodes_counter [of n olds rs] a pn by simp
  ultimately show ?case using ih a by simp
qed

lemma rendered_keys_shown: "rendered_keys st = map item_key (shown st)"
  by (simp add: rendered_keys_def session_props_def render_list_view item_keys_list_view)

lemma assign_nodes_None:
  "j < length rs \<Longrightarrow> rs ! j = None \<Longrightarrow> n \<le> fst (assign_nodes olds n rs) ! j"
proof (induction olds n rs arbitrary: j rule: assign_nodes.induct)
  case (1 olds n)
  then show ?case by simp
next
  case (2 olds n rs)
  then show ?case by (cases j) (auto simp: split_beta intro: Suc_leD)
next
  case (3 olds n p rs)
  then show ?case by (cases j) (auto simp: split_beta)
qed

lemma mounted_step_SetAppointments:
  "mounted_step m (SetAppointments bs) =
     (let r = reconcile_keys (map item_key (shown (msession m))) (map item_key bs)
      in m\<lparr>msession := (msession m)\<lparr>shown := bs\<rparr>,
           nodes := fst (assign_nodes (nodes m) (next_node m) r),
           next_node := snd (assign_nodes (nodes m) (next_node m) r)\<rparr>)"
  by (simp add: rendered_keys_shown Let_def split_beta)

lemma mounted_step_Click:
  "nodes (mounted_step m (Click p)) = nodes m \<and> next_node (mounted_step m (Click p)) = next_node m
   \<and> shown (msession (mounted_step m (Click p))) = shown (msession m)"
  using click_history [of "msession m" p] by simp

lemma reconcile_keys_Some_bound:
  "Some q \<in> set (reconcile_keys old new) \<Longrightarrow> q < length old"
  by (metis in_set_conv_nth reconcile_keys_length reconcile_keys_match)

lemma mounted_inv_init: "mounted_inv init_mounted"
  by (simp add: mounted_inv_def init_mounted_def init_session_def)

lemma mounted_inv_step: "mounted_inv m \<Longrightarrow> mounted_inv (mounted_step m e)"
proof (cases e)
  case (SetAppointments bs)
  assume inv: "mounted_inv m"
  let ?r = "reconcile_keys (map item_key (shown (msession m))) (map item_key bs)"
  have "\<forall>q. Some q \<in> set ?r \<longrightarrow> q < length (nodes m)"
    using inv reconcile_keys_Some_bound by (fastforce simp: mounted_inv_def)
  then have "distinct (fst (assign_nodes (nodes m) (next_node m) ?r))
    \<and> list_all (\<lambda>x. x < snd (assign_nodes (nodes m) (next_node m) ?r)) (fst (assign_nodes (nodes m) (next_node m) ?r))"
    using inv assign_nodes_distinct reconcile_keys_reuse_once by (simp add: mounted_inv_def)
  then show ?thesis using SetAppointments
    by (simp add: mounted_step_SetAppointments Let_def mounted_inv_def del: mounted_step.simps)
next
  case (Click p)
  assume "mounted_inv m"
  then show ?thesis using Click mounted_step_Click [of m p] by (simp add: mounted_inv_def)
qed

lemma reconcile_item_keys_nth:
  assumes "distinct (map id' as)" and "distinct (map id' bs)" and "j < length bs"
  shows "reconcile_keys (map item_key as) (map item_key bs) ! j = key_index (map id' as) (id' (bs ! j))"
proof -
  have "distinct (map item_key as)" and "distinct (map item_key bs)"
    using assms(1,2) by (simp_all add: distinct_item_keys)
  then show ?thesis using assms(3) by (simp add: reconcile_keys_distinct key_index_item_key)
qed

lemma reconcile_item_keys_new:
  assumes "j < length bs" and "id' (bs ! j) \<notin> id' ` set as"
  shows "reconcile_keys (map item_key as) (map item_key bs) ! j = None"
proof (rule ccontr)
  assume "reconcile_keys (map item_key as) (map item_key bs) ! j \<noteq> None"
  then obtain p where "reconcile_keys (map item_key as) (map item_key bs) ! j = Some p" by blast
  from reconcile_keys_match [OF _ this] assms(1)
  have p: "p < length as" and "item_key (as ! p) = item_key (bs ! j)" by auto
  then have "id' (as ! p) = id' (bs ! j)" by (simp add: item_key_def js_int_to_string_inj)
  with p have "id' (bs ! j) \<in> id' ` set as" by (metis image_eqI nth_mem)
  with assms(2) show False by blast
qed

section \<open>Properties of the mounted list\<close>

text \<open>
  C16. State preservation: when new props arrive and the ids on both sides are
  distinct, an appointment that stays on screen keeps its DOM item, wherever it moves
  in the list.
\<close>

theorem kept_appointment_keeps_node:
  assumes "mounted_inv m"
    and "distinct (map id' (shown (msession m)))" and "distinct (map id' bs)"
    and "j < length bs" and "p < length (shown (msession m))"
    and "id' (shown (msession m) ! p) = id' (bs ! j)"
  shows "nodes (mounted_step m (SetAppointments bs)) ! j = nodes m ! p"
proof -
  let ?as = "shown (msession m)"
  have "key_index (map id' ?as) (id' (bs ! j)) = Some p"
    using key_index_nth [OF assms(2), of p] assms(5,6) by simp
  then have "reconcile_keys (map item_key ?as) (map item_key bs) ! j = Some p"
    using reconcile_item_keys_nth [OF assms(2,3,4)] by simp
  then show ?thesis using assms(4)
    by (simp add: mounted_step_SetAppointments Let_def assign_nodes_Some del: mounted_step.simps)
qed

theorem kept_appointment_keeps_node_witness:
  "mounted_inv (mounted_step init_mounted (SetAppointments [sample_appointment]))
   \<and> shown (msession (mounted_step init_mounted (SetAppointments [sample_appointment]))) = [sample_appointment]
   \<and> distinct (map id' [sample_appointment]) \<and> distinct (map id' [sample_appointment\<lparr>id' := 2\<rparr>, sample_appointment])
   \<and> nodes (mounted_step (mounted_step init_mounted (SetAppointments [sample_appointment]))
        (SetAppointments [sample_appointment\<lparr>id' := 2\<rparr>, sample_appointment])) ! 1
     = nodes (mounted_step init_mounted (SetAppointments [sample_appointment])) ! 0"
proof -
  let ?m = "mounted_step init_mounted (SetAppointments [sample_appointment])"
  have i: "mounted_inv ?m" by (rule mounted_inv_step [OF mounted_inv_init])
  have s: "shown (msession ?m) = [sample_appointment]"
    by (simp add: mounted_step_SetAppointments Let_def del: mounted_step.simps)
  have d: "distinct (map id' [sample_appointment\<lparr>id' := 2\<rparr>, sample_appointment])"
    by (simp add: sample_appointment_def)
  have h: "distinct (map id' (shown (msession ?m)))"
    "1 < length [sample_appointment\<lparr>id' := 2\<rparr>, sample_appointment]"
    "0 < length (shown (msession ?m))"
    "id' (shown (msession ?m) ! 0) = id' ([sample_appointment\<lparr>id' := 2\<rparr>, sample_appointment] ! 1)"
    using s by simp_all
  have "nodes (mounted_step ?m (SetAppointments [sample_appointment\<lparr>id' := 2\<rparr>, sample_appointment])) ! 1
      = nodes ?m ! 0"
    using kept_appointment_keeps_node [OF i h(1) d h(2-4)] .
  with i s d show ?thesis by simp
qed

text \<open>
  C17. Freshness: whatever the ids, an appointment whose id is not on screen gets a
  DOM item that none of the shown appointments had; it never takes over the item of
  an appointment of another id.
\<close>

theorem new_appointment_fresh_node:
  assumes "mounted_inv m" and "j < length bs" and "id' (bs ! j) \<notin> id' ` set (shown (msession m))"
  shows "nodes (mounted_step m (SetAppointments bs)) ! j \<notin> set (nodes m)"
proof -
  let ?r = "reconcile_keys (map item_key (shown (msession m))) (map item_key bs)"
  have "?r ! j = None" using reconcile_item_keys_new [OF assms(2,3)] .
  then have "next_node m \<le> fst (assign_nodes (nodes m) (next_node m) ?r) ! j"
    using assms(2) by (simp add: assign_nodes_None)
  moreover have "\<forall>x \<in> set (nodes m). x < next_node m"
    using assms(1) by (simp add: mounted_inv_def list_all_iff)
  ultimately show ?thesis
    by (auto simp: mounted_step_SetAppointments Let_def simp del: mounted_step.simps)
qed

theorem new_appointment_fresh_node_witness:
  "mounted_inv (mounted_step init_mounted (SetAppointments [sample_appointment]))
   \<and> id' (sample_appointment\<lparr>id' := 2\<rparr>) \<notin> id' ` set (shown (msession (mounted_step init_mounted (SetAppointments [sample_appointment]))))
   \<and> nodes (mounted_step (mounted_step init_mounted (SetAppointments [sample_appointment]))
        (SetAppointments [sample_appointment\<lparr>id' := 2\<rparr>]))  ! 0
     \<notin> set (nodes (mounted_step init_mounted (SetAppointments [sample_appointment])))"
proof -
  let ?m = "mounted_step init_mounted (SetAppointments [sample_appointment])"
  have i: "mounted_inv ?m" by (rule mounted_inv_step [OF mounted_inv_init])
  have n: "id' (sample_appointment\<lparr>id' := 2\<rparr>) \<notin> id' ` set (shown (msession ?m))"
    by (simp add: mounted_step_SetAppointments Let_def sample_appointment_def del: mounted_step.simps)
  have "nodes (mounted_step ?m (SetAppointments [sample_appointment\<lparr>id' := 2\<rparr>])) ! 0 \<notin> set (nodes ?m)"
    using new_appointment_fresh_node [OF i, where bs = "[sample_appointment\<lparr>id' := 2\<rparr>]" and j = 0] n
    by simp
  with i n show ?thesis by simp
qed

end
