(* ===== verification/Spec2Isabelle.thy ===== *)
theory Spec2Isabelle
  imports Home Typing Mounted
begin

text \<open>
  \<^bold>\<open>A verification development of the healthcare appointment front end.\<close>

  \<^emph>\<open>The program.\<close> Two React function components written in TypeScript/JSX:
  \<^item> \<open>AppointmentList\<close> (\<open>src/templates/frontend/src/components/AppointmentList.tsx\<close>)
    takes the props \<open>appointments\<close> (an array of \<open>Appointment\<close> records) and
    \<open>onAppointmentClick\<close> (a callback taking an id) and returns a \<open>div\<close> with the heading
    ``Appointment List'' and a \<open>ul\<close> holding one \<open>li\<close> per appointment, keyed by the id,
    whose click listener calls the callback with that id;
  \<^item> \<open>Home\<close> (\<open>src/templates/frontend/src/pages/Home.tsx\<close>) returns a \<open>div\<close> with a
    heading, a paragraph and the element \<open><AppointmentList />\<close>, with no props.
  The two interact only through that element: \<open>Home\<close> embeds the list, React renders
  the list with the props \<open>Home\<close> gives it, and an error thrown by the list aborts the
  render of the page. The state the code touches is the parent's, reached through the
  callback when the user clicks.

  \<^emph>\<open>The theories.\<close>
  \<^item> \<open>Prelude\<close>: the JavaScript errors of the model (\<open>js_error\<close>), the handler type
    (\<open>'s handler\<close>, a state transformer that may throw), the characters of JSX
    text, and list lemmas shared by the components.
  \<^item> \<open>JSX\<close>: the meaning of the JSX the components are written in, modelled from the
    documented behaviour of the toolchain (not part of this repository): the JSX
    compiler's cleaning of literal text (\<open>jsx_clean\<close>, after Babel's
    \<open>cleanJSXElementLiteralChild\<close>), the element tree (\<open>jsx\<close>), the rendered host
    tree (\<open>vnode\<close>), React's rendering of the one into the other (\<open>host\<close>: empty
    strings render no node, arrays are spliced, a component element renders to what
    the component renders, errors propagate) and \<open>textContent\<close> (\<open>text_content\<close>).
    Lemmas: how literal text between tags is cleaned, so that the whitespace of the
    sources is known to produce no text node.
  \<^item> \<open>Events\<close>: React's click dispatch, also modelled from its documented behaviour:
    the target is named by a path of child indices; the \<open>onClick\<close> listeners from
    the target up to the root run in bubbling order, a throwing listener does not stop
    the others and the first error is reported (\<open>dispatch_click\<close>). Lemmas: paths,
    and that a subtree without listeners (\<open>quiet\<close>) contributes none.
  \<^item> \<open>Keys\<close>: React's conversion of the numeric \<open>key\<close> into a string
    (\<open>js_int_to_string\<close>, JavaScript's decimal \<open>Number\<close> to string on integers)
    and a decimal parser; the round trip gives that distinct ids give distinct keys.
  \<^item> \<open>AppointmentList\<close>: the \<open>Appointment\<close> interface as the record \<open>appointment\<close>
    (the field \<open>id\<close> is \<open>id'\<close>), the props as the record \<open>AppointmentListProps\<close>
    (an omitted prop is \<open>None\<close>), the click closure (\<open>click_closure\<close>), the key
    (\<open>item_key\<close>), the three lines of an item (\<open>item_patient_line\<close>,
    \<open>item_time_line\<close>, \<open>item_status_line\<close>, lines 25, 27, 29), the JSX of
    an item (\<open>item_jsx\<close>) and of the component (\<open>AppointmentList_jsx\<close>) with the
    sources' exact whitespace, the component itself (\<open>AppointmentList\<close>, which throws
    on \<open>appointments.map\<close> when the prop is undefined) and its render
    (\<open>render_AppointmentList\<close>). The abstract specification is the view the
    component promises (\<open>item_view\<close>, \<open>list_view\<close>).
  \<^item> \<open>Home\<close>: its heading and paragraph (\<open>home_title\<close>, \<open>home_intro\<close>), the
    page with the props of its \<open><AppointmentList />\<close> as a parameter (\<open>Home_with\<close>),
    those props as written (\<open>Home_props\<close>: none), the page as written (\<open>Home\<close>) and
    its render.
  \<^item> \<open>Typing\<close>: TypeScript's check of a JSX element against the props interface.
    The element's attributes (\<open>jsx_attr\<close>, one constructor per member of
    \<open>AppointmentListProps\<close>, carrying the member's type) are collected into the props
    object by \<open>createElement\<close> (\<open>element_props\<close>, later attributes override earlier
    ones); the members without \<open>?\<close> are required (\<open>props_required\<close>), and the compiler
    accepts an element that gives all of them (\<open>ts_accepts\<close>).
  \<^item> \<open>Session\<close>: the list inside a parent, which the spec names only by its contract
    (section 6) and which is modelled from it: the parent's state (\<open>parent_state\<close>,
    the selected id and the history of selections), its callback (\<open>on_select\<close>), the
    events of a session (\<open>ui_event\<close>: new props, clicks), the step function
    (\<open>session_step\<close>: a click is dispatched on the tree the list renders for the
    current props), runs, and the \<open>inductive\<close> set of sessions reachable when the
    parent draws its appointments from a set \<open>U\<close>. The abstract specification of a
    session is \<open>expected_history\<close>: the ids of the clicked items, in click order.
  \<^item> \<open>Reconcile\<close>: React's reconciliation of keyed children across two renders
    (\<open>reconcile_keys\<close>, after \<open>reconcileChildrenArray\<close>, not part of this repository):
    a positional pass over the common prefix of equal keys (\<open>common_prefix\<close>), the
    map from key to position of the remaining old children, where a later duplicate
    overwrites an earlier one (\<open>map_remaining\<close>), and the lookup of each new key, which
    deletes the entry it uses (\<open>update_from_map\<close>). A result names, for each new item,
    the old item it takes over, or \<open>None\<close> when the item is created afresh. Its
    specification is matching by key (\<open>key_index\<close>), and \<open>item_keys\<close> reads the keys
    of a rendered list.
  \<^item> \<open>Mounted\<close>: the session with the identity of the DOM item of each shown
    appointment (\<open>mounted\<close>: the session, the list of nodes, a counter of fresh
    nodes). New props are reconciled against the items on screen (\<open>mounted_step\<close>);
    a matched appointment takes over the node of its item, the others get fresh ones
    (\<open>assign_nodes\<close>); \<open>mounted_inv\<close> says the nodes are one per shown
    appointment, distinct and below the counter, and every step keeps it.

  \<^emph>\<open>What is proved.\<close>
  \<^item> Refinement (C1): for every list and every callback, rendering the JSX of the
    source gives exactly \<open>list_view\<close>: heading, one item per appointment in order,
    keys from the ids, the fields in their text nodes, the click closure on each item.
  \<^item> Clicks (C2, C6, C7): a click anywhere inside the \<open>i\<close>-th item calls the callback
    exactly once with the \<open>i\<close>-th id; without a callback it throws a TypeError and
    changes nothing; a click outside the items runs nothing.
  \<^item> Rendering contract of the spec (C3): item count, order, keys and text of the items.
  \<^item> Errors (C4, C5): the list without \<open>appointments\<close> throws; \<open>Home\<close> as written
    therefore never renders, contrary to the spec's statement that it renders its
    heading unconditionally.
  \<^item> Keys and round trip (C8, C9): keys are distinct exactly when ids are; an item
    whose fields are non-empty can be read back as its appointment.
  \<^item> Sessions (C10, C11): over any interleaving of new props and clicks the parent's
    history is the list of clicked ids in click order (a refinement of the session by
    \<open>expected_history\<close>, by induction on the run); and, by rule induction over the
    reachable sessions with a strengthened invariant (shown appointments within
    \<open>U\<close>, selected id within the history), the callback only ever receives ids of
    appointments the parent supplied.
  \<^item> Shape (C12): every successful render is a well-formed tree (a type of the output:
    an \<open>li\<close> per item with a non-empty key and one listener, none below it).
  \<^item> Reconciliation (C13, C14, C15): with distinct ids, React's two-pass algorithm
    equals matching by id (the positional pass is an optimisation), proved through
    \<open>reconcile_keys_distinct\<close>; for all inputs an item is only taken over by an
    appointment of its id and never twice (\<open>reconcile_keys_match\<close>,
    \<open>reconcile_keys_reuse_once\<close>); with duplicate ids a reordering recreates an item
    whose appointment stays on screen.
  \<^item> Mounted items (C16, C17): with distinct ids an appointment that stays on screen
    keeps its DOM item wherever it moves; an appointment whose id was not shown gets a
    fresh item.
  \<^item> Typing (C18): soundness of the props check for this component, in the manner of
    the progress theorem of a typed language: an accepted element renders, and every
    click on an item runs the callback it was given, so neither of the list's
    TypeErrors can occur.
  \<^item> JSX text (library lemmas of \<open>JSX\<close>): cleaning is idempotent, and literal text
    vanishes exactly when it is empty or blank across a line break (which is why the
    indentation of the sources creates no text nodes).

  \<^emph>\<open>Bounds and fuel.\<close> No loop of the program needs fuel: the only iteration is
  \<open>appointments.map\<close>, modelled by \<open>map\<close>; every recursive function of the model is
  structural, except \<open>dec_nat\<close>, whose recursion on \<open>n div 10\<close> the termination
  proof of \<open>fun\<close> covers. The loops of React's reconciliation run over the old and
  new children and are structural recursions on those lists. Ids are JavaScript
  numbers; the model takes them as integers, which is faithful for the safe integers
  (magnitude below \<open>2^53\<close>), where JavaScript's string conversion is the decimal one
  of \<open>js_int_to_string\<close>.

  \<^emph>\<open>Not modelled.\<close> The module system: \<open>import\<close> and \<open>export default\<close> only bind the
  name \<open>AppointmentList\<close> of \<open>Home.tsx\<close> to the component of its file, which the model
  does directly (\<open>Home_with\<close> calls \<open>render_AppointmentList\<close>). Of TypeScript's static
  typing only the check of an element's props is modelled (it would reject the element
  of \<open>Home.tsx\<close> line 9, which gives no attribute); the type inference of the rest of
  the files is not, since the attribute values of \<open>jsx_attr\<close> and the records are
  typed by HOL's own types. React's internal fiber tree: the path model of \<open>Events\<close>
  stands for the walk up the fibers, which a model of the fibers would only restate for
  every tree, not for this code. The browser's \<open>innerText\<close> and the DOM's layout and
  styling (CSS white-space collapsing, block boxes); what the user reads is modelled by
  \<open>textContent\<close> (\<open>text_content\<close>) only. The commit of a reconciliation to the DOM
  (moves, insertions, deletions: the model stops at which item each new appointment
  takes over); reconciliation of unkeyed or non-array children (the list's children are
  always a keyed array); \<open>stopPropagation\<close> (no handler of the code calls it) and
  events other than clicks. A parent callback that throws is covered at the level of
  the list (C2 gives the click's outcome for any callback: a throw leaves the state as
  it was and is rethrown); the session's parent (\<open>on_select\<close>) does not throw. The
  spec's appointment provider (section 9) has no code in the repository. Every line of
  the two source files that does something is the translation of a definition of the
  map; what is left out is toolchain behaviour the code does not exercise.
\<close>

end
